theory Spec2Isabelle
  imports Main
begin

section \<open>Admission control: the in-memory rate limiter (src/lib/rate-limit.ts)\<close>

text \<open>
  Timestamps are milliseconds since the epoch (\<open>Date.now()\<close>) and counters are JavaScript
  numbers holding integers; both are modelled as \<open>int\<close>. The \<open>Map\<close> of the class is a
  partial function from identifiers to entries.
\<close>

record RateLimitEntry =
  count :: int
  resetTime :: int

record RateLimiter =
  store :: "string \<rightharpoonup> RateLimitEntry"
  windowMs :: int
  maxRequests :: int

text \<open>The object returned by \<open>check\<close>; its \<open>resetTime\<close> field is named \<open>resultResetTime\<close>
  here, since the entry already owns the name.\<close>

record CheckResult =
  allowed :: bool
  remainingRequests :: int
  resultResetTime :: int

text \<open>\<open>RateLimiter.check\<close>, with the reading of the clock passed in as \<open>now\<close>. The three
  returns of the source are the three branches, in the source's order.\<close>

definition check :: "int \<Rightarrow> string \<Rightarrow> RateLimiter \<Rightarrow> CheckResult \<times> RateLimiter" where
  "check now identifier rl =
     (let entry = store rl identifier in
      if entry = None \<or> now > resetTime (the entry) then
        (let newEntry = \<lparr>count = 1, resetTime = now + windowMs rl\<rparr> in
         (\<lparr>allowed = True,
           remainingRequests = maxRequests rl - 1,
           resultResetTime = resetTime newEntry\<rparr>,
          rl\<lparr>store := (store rl)(identifier \<mapsto> newEntry)\<rparr>))
      else if count (the entry) \<ge> maxRequests rl then
        (\<lparr>allowed = False,
          remainingRequests = 0,
          resultResetTime = resetTime (the entry)\<rparr>,
         rl)
      else
        (let entry' = (the entry)\<lparr>count := count (the entry) + 1\<rparr> in
         (\<lparr>allowed = True,
           remainingRequests = maxRequests rl - count entry',
           resultResetTime = resetTime entry'\<rparr>,
          rl\<lparr>store := (store rl)(identifier \<mapsto> entry')\<rparr>)))"

text \<open>The housekeeping sweep \<open>cleanup\<close>: every entry whose window has passed is deleted.\<close>

definition cleanup :: "int \<Rightarrow> RateLimiter \<Rightarrow> RateLimiter" where
  "cleanup now rl =
     rl\<lparr>store := (\<lambda>key. case store rl key of
                          None \<Rightarrow> None
                        | Some entry \<Rightarrow> if now > resetTime entry then None else Some entry)\<rparr>"

text \<open>A run of requests of one identity, one \<open>check\<close> per clock reading, in order.\<close>

fun checks :: "string \<Rightarrow> int list \<Rightarrow> RateLimiter \<Rightarrow> CheckResult list \<times> RateLimiter" where
  "checks identifier [] rl = ([], rl)"
| "checks identifier (t # ts) rl =
     (let (r, rl') = check t identifier rl;
          (rs, rl'') = checks identifier ts rl'
      in (r # rs, rl''))"

text \<open>A request at \<open>now\<close> opens a new window: the bucket is absent or its window has passed.\<close>

definition opensWindow :: "RateLimiter \<Rightarrow> string \<Rightarrow> int \<Rightarrow> bool" where
  "opensWindow rl identifier now =
     (case store rl identifier of None \<Rightarrow> True | Some entry \<Rightarrow> now > resetTime entry)"

text \<open>The constructor, and the two limiters of the module that the secret router uses, as
  they are when the process starts.\<close>

definition newRateLimiter :: "int \<Rightarrow> int \<Rightarrow> RateLimiter" where
  "newRateLimiter w m = \<lparr>store = Map.empty, windowMs = w, maxRequests = m\<rparr>"

definition secretCreateRateLimit0 :: RateLimiter where
  "secretCreateRateLimit0 = newRateLimiter (60 * 60 * 1000) 10"

definition secretAccessRateLimit0 :: RateLimiter where
  "secretAccessRateLimit0 = newRateLimiter (5 * 60 * 1000) 20"


section \<open>JavaScript values\<close>

text \<open>
  An optional string (\<open>string | null | undefined\<close>) is a \<open>string option\<close>. In a condition
  JavaScript takes a string for true unless it is absent or empty.
\<close>

definition truthy :: "string option \<Rightarrow> bool" where
  "truthy v = (case v of None \<Rightarrow> False | Some s \<Rightarrow> s \<noteq> [])"

text \<open>\<open>a || b || 'unknown'\<close> on optional strings.\<close>

definition orElse :: "string option \<Rightarrow> string option \<Rightarrow> string option" where
  "orElse a b = (if truthy a then a else b)"

definition orDefault :: "string option \<Rightarrow> string \<Rightarrow> string" where
  "orDefault a d = (if truthy a then the a else d)"

text \<open>
  \<open>String.prototype.trim\<close> on a header value. \<open>Headers.get\<close> returns a byte string (code
  units below 256), where the white space and line terminators of JavaScript are the
  code units 9 to 13, 32 and 160.
\<close>

definition isWhiteSpace :: "char \<Rightarrow> bool" where
  "isWhiteSpace c = (of_char c \<in> {9, 10, 11, 12, 13, 32, 160 :: nat})"

definition trim :: "string \<Rightarrow> string" where
  "trim s = rev (dropWhile isWhiteSpace (rev (dropWhile isWhiteSpace s)))"

text \<open>\<open>s.split(",")[0]\<close>: the part of \<open>s\<close> before its first comma.\<close>

definition splitCommaFirst :: "string \<Rightarrow> string" where
  "splitCommaFirst s = takeWhile (\<lambda>c. c \<noteq> CHR '','') s"

section \<open>Request context (Context, createTRPCContext)\<close>

text \<open>The headers of a request, by their lower-case names.\<close>

record Request =
  headers :: "string \<rightharpoonup> string"

record User =
  user_id :: string
  user_email :: string

record Context =
  req :: "Request option"
  user :: "User option"

definition getClientIdentifier :: "Request \<Rightarrow> string" where
  "getClientIdentifier r =
     (let forwarded = headers r ''x-forwarded-for'';
          realIp = headers r ''x-real-ip''
      in if truthy forwarded then trim (splitCommaFirst (the forwarded))
         else if truthy realIp then the realIp
         else ''unknown'')"

section \<open>Persistence: the tables of the Prisma schema\<close>

text \<open>
  A \<open>DateTime\<close> is its time value in milliseconds. The column \<open>id\<close> is the field \<open>id'\<close>.
\<close>

record Secret =
  id' :: string
  title :: "string option"
  content :: string
  slug :: string
  password :: "string option"
  expiresAt :: "int option"
  isOneTimeAccess :: bool
  hasBeenAccessed :: bool
  createdAt :: int
  updatedAt :: int
  userId :: "string option"

record AccessLog =
  log_id :: string
  secretId :: string
  ipAddress :: "string option"
  userAgent :: "string option"
  accessedAt :: int

text \<open>
  The process state the router works on: the rows of \<open>secrets\<close> and \<open>access_logs\<close>, the ids
  of the rows of \<open>users\<close>, and the two limiters.
\<close>

record State =
  secrets :: "Secret list"
  accessLogs :: "AccessLog list"
  users :: "string list"
  secretCreateRateLimit :: RateLimiter
  secretAccessRateLimit :: RateLimiter

definition initialState :: State where
  "initialState =
     \<lparr>secrets = [], accessLogs = [], users = [],
      secretCreateRateLimit = secretCreateRateLimit0,
      secretAccessRateLimit = secretAccessRateLimit0\<rparr>"

section \<open>Errors\<close>

datatype trpcCode = UNAUTHORIZED | FORBIDDEN | NOT_FOUND | TOO_MANY_REQUESTS

text \<open>
  How a call fails: with a \<open>TRPCError\<close> the procedure throws (its code and message), with
  the error of a rejected Prisma call (its error code), which the procedures never catch,
  or because the input schema rejects the input before the procedure body runs (tRPC
  answers \<open>BAD_REQUEST\<close> with the issues of the schema; the issue's message is kept).
\<close>

datatype failure = TRPCError trpcCode string | PrismaError string | InputRejected string

section \<open>What a call takes from outside\<close>

text \<open>
  The values a call reads from its environment: the clock of the limiter (\<open>Date.now()\<close>),
  the clock of the expiry check (\<open>new Date()\<close>), the clock of the database (\<open>now()\<close>,
  \<open>@updatedAt\<close>), the slug \<open>nanoid(12)\<close> draws, the \<open>cuid()\<close> of the new row,
  \<open>bcrypt.hash(_, 12)\<close> with the salt of this call, \<open>bcrypt.compare\<close>, and whether
  \<open>prisma.accessLog.create\<close> is rejected (\<open>Some\<close> of the error). The other Prisma calls are
  answered; their constraints (primary key, unique slug, foreign key) are checked below.
\<close>

record Env =
  dateNow :: int
  newDate :: int
  dbNow :: int
  nanoid :: string
  cuid :: string
  bcryptHash :: "string \<Rightarrow> string"
  bcryptCompare :: "string \<Rightarrow> string \<Rightarrow> bool"
  accessLogError :: "string option"

section \<open>Prisma calls\<close>

definition findUniqueBySlug :: "Secret list \<Rightarrow> string \<Rightarrow> Secret option" where
  "findUniqueBySlug rows s = find (\<lambda>r. slug r = s) rows"

definition findUniqueById :: "Secret list \<Rightarrow> string \<Rightarrow> Secret option" where
  "findUniqueById rows i = find (\<lambda>r. id' r = i) rows"

text \<open>\<open>prisma.secret.create\<close>: the row is inserted unless a constraint of the table rejects
  it (\<open>P2002\<close> unique constraint, \<open>P2003\<close> foreign key).\<close>

definition secretCreate :: "Secret \<Rightarrow> State \<Rightarrow> failure + State" where
  "secretCreate row st =
     (if id' row \<in> set (map id' (secrets st)) then Inl (PrismaError ''P2002 id'')
      else if slug row \<in> set (map slug (secrets st)) then Inl (PrismaError ''P2002 slug'')
      else if userId row \<noteq> None \<and> the (userId row) \<notin> set (users st)
        then Inl (PrismaError ''P2003 userId'')
      else Inr (st\<lparr>secrets := secrets st @ [row]\<rparr>))"

text \<open>\<open>prisma.secret.update({where: {id}, data})\<close>: the row of that id gets the data, and
  \<open>updatedAt\<close> the clock of the database.\<close>

definition secretUpdate :: "string \<Rightarrow> (Secret \<Rightarrow> Secret) \<Rightarrow> int \<Rightarrow> Secret list \<Rightarrow> Secret list" where
  "secretUpdate i f now rows =
     map (\<lambda>r. if id' r = i then (f r)\<lparr>updatedAt := now\<rparr> else r) rows"

text \<open>\<open>prisma.secret.delete({where: {id}})\<close>; the access logs of the row go with it
  (\<open>onDelete: Cascade\<close>).\<close>

definition secretDelete :: "string \<Rightarrow> State \<Rightarrow> State" where
  "secretDelete i st =
     st\<lparr>secrets := filter (\<lambda>r. id' r \<noteq> i) (secrets st),
        accessLogs := filter (\<lambda>l. secretId l \<noteq> i) (accessLogs st)\<rparr>"

section \<open>The secret router (src/server/routers/secrets.ts)\<close>

text \<open>The objects the procedures return.\<close>

record CreateOutput =
  create_id :: string
  create_slug :: string
  create_title :: "string option"
  create_expiresAt :: "int option"
  create_isOneTimeAccess :: bool
  create_createdAt :: int

record GetBySlugOutput =
  get_id :: string
  get_title :: "string option"
  get_content :: string
  get_expiresAt :: "int option"
  get_isOneTimeAccess :: bool
  get_createdAt :: int

record CheckRequirementsOutput =
  check_id :: string
  check_title :: "string option"
  requiresPassword :: bool
  check_expiresAt :: "int option"
  check_isOneTimeAccess :: bool
  check_createdAt :: int

record UpdateOutput =
  update_id :: string
  update_title :: "string option"
  update_expiresAt :: "int option"
  update_updatedAt :: int

text \<open>
  The guard at the head of \<open>create\<close> and \<open>getBySlug\<close>: with a request in the context the
  limiter is asked, and its state changes; without one nothing happens. The result is the
  limiter after the guard and whether the guard throws.
\<close>

definition rateLimitGuard :: "Env \<Rightarrow> Context \<Rightarrow> RateLimiter \<Rightarrow> bool \<times> RateLimiter" where
  "rateLimitGuard e ctx rl =
     (case req ctx of
        None \<Rightarrow> (False, rl)
      | Some r \<Rightarrow>
          (let clientId = getClientIdentifier r;
               (rateLimit, rl') = check (dateNow e) clientId rl
           in (\<not> allowed rateLimit, rl')))"

text \<open>\<open>secret.expiresAt && secret.expiresAt < new Date()\<close>\<close>

definition expired :: "Secret \<Rightarrow> int \<Rightarrow> bool" where
  "expired secret now = (expiresAt secret \<noteq> None \<and> the (expiresAt secret) < now)"

text \<open>
  \<open>create\<close>. The input is the parsed one: \<open>expiresAt\<close> is the time value of the date the
  string was turned into (a string that is no date is not modelled), \<open>isOneTimeAccess\<close> has
  its default. The schema's \<open>content: z.string().min(1, 'Content is required')\<close> is
  checked before the procedure body runs and rejects an empty content.
\<close>

definition create ::
  "Env \<Rightarrow> Context \<Rightarrow> string option \<Rightarrow> string \<Rightarrow> string option \<Rightarrow> int option \<Rightarrow> bool \<Rightarrow>
     State \<Rightarrow> (failure + CreateOutput) \<times> State" where
  "create e ctx title_in content_in password_in expiresAt_in isOneTimeAccess_in st =
     (if content_in = [] then (Inl (InputRejected ''Content is required''), st)
      else
        let (limited, rl') = rateLimitGuard e ctx (secretCreateRateLimit st);
            st1 = st\<lparr>secretCreateRateLimit := rl'\<rparr>
        in if limited then
             (Inl (TRPCError TOO_MANY_REQUESTS
                ''Too many secrets created. Please try again later.''), st1)
           else
             let slug_new = nanoid e;
                 hashedPassword =
                   (if truthy password_in then Some (bcryptHash e (the password_in)) else None);
                 row = \<lparr>id' = cuid e, title = title_in, content = content_in, slug = slug_new,
                        password = hashedPassword, expiresAt = expiresAt_in,
                        isOneTimeAccess = isOneTimeAccess_in, hasBeenAccessed = False,
                        createdAt = dbNow e, updatedAt = dbNow e,
                        userId = map_option user_id (user ctx)\<rparr>
             in case secretCreate row st1 of
                  Inl err \<Rightarrow> (Inl err, st1)
                | Inr st2 \<Rightarrow>
                    (Inr \<lparr>create_id = id' row, create_slug = slug row,
                          create_title = title row, create_expiresAt = expiresAt row,
                          create_isOneTimeAccess = isOneTimeAccess row,
                          create_createdAt = createdAt row\<rparr>, st2))"

text \<open>\<open>getBySlug\<close>, the checks in the order of the source.\<close>

definition getBySlug ::
  "Env \<Rightarrow> Context \<Rightarrow> string \<Rightarrow> string option \<Rightarrow> State \<Rightarrow> (failure + GetBySlugOutput) \<times> State" where
  "getBySlug e ctx slug_in password_in st =
     (let (limited, rl') = rateLimitGuard e ctx (secretAccessRateLimit st);
          st1 = st\<lparr>secretAccessRateLimit := rl'\<rparr>
      in if limited then
           (Inl (TRPCError TOO_MANY_REQUESTS
              ''Too many secret access attempts. Please try again later.''), st1)
         else
           case findUniqueBySlug (secrets st1) slug_in of
             None \<Rightarrow> (Inl (TRPCError NOT_FOUND ''Secret not found''), st1)
           | Some secret \<Rightarrow>
               if expired secret (newDate e) then
                 (Inl (TRPCError NOT_FOUND ''Secret has expired''), st1)
               else if isOneTimeAccess secret \<and> hasBeenAccessed secret then
                 (Inl (TRPCError NOT_FOUND ''Secret has already been accessed''), st1)
               else if truthy (password secret) \<and> \<not> truthy password_in then
                 (Inl (TRPCError UNAUTHORIZED ''Password required''), st1)
               else if truthy (password secret) \<and>
                       \<not> bcryptCompare e (the password_in) (the (password secret)) then
                 (Inl (TRPCError UNAUTHORIZED ''Invalid password''), st1)
               else
                 case accessLogError e of
                   Some err \<Rightarrow> (Inl (PrismaError err), st1)
                 | None \<Rightarrow>
                     let entry =
                           \<lparr>log_id = cuid e, secretId = id' secret,
                            ipAddress = Some (orDefault
                              (orElse (case req ctx of None \<Rightarrow> None
                                       | Some r \<Rightarrow> headers r ''x-forwarded-for'')
                                      (case req ctx of None \<Rightarrow> None
                                       | Some r \<Rightarrow> headers r ''x-real-ip''))
                              ''unknown''),
                            userAgent = Some (orDefault
                              (case req ctx of None \<Rightarrow> None
                               | Some r \<Rightarrow> headers r ''user-agent'')
                              ''unknown''),
                            accessedAt = dbNow e\<rparr>;
                         st2 = st1\<lparr>accessLogs := accessLogs st1 @ [entry]\<rparr>;
                         st3 = (if isOneTimeAccess secret then
                                  st2\<lparr>secrets := secretUpdate (id' secret)
                                     (\<lambda>r. r\<lparr>hasBeenAccessed := True\<rparr>) (dbNow e) (secrets st2)\<rparr>
                                else st2)
                     in (Inr \<lparr>get_id = id' secret, get_title = title secret,
                              get_content = content secret, get_expiresAt = expiresAt secret,
                              get_isOneTimeAccess = isOneTimeAccess secret,
                              get_createdAt = createdAt secret\<rparr>, st3))"

text \<open>\<open>checkRequirements\<close>: no guard, no write.\<close>

definition checkRequirements :: "Env \<Rightarrow> string \<Rightarrow> State \<Rightarrow> failure + CheckRequirementsOutput" where
  "checkRequirements e slug_in st =
     (case findUniqueBySlug (secrets st) slug_in of
        None \<Rightarrow> Inl (TRPCError NOT_FOUND ''Secret not found'')
      | Some secret \<Rightarrow>
          if expired secret (newDate e) then
            Inl (TRPCError NOT_FOUND ''Secret has expired'')
          else if isOneTimeAccess secret \<and> hasBeenAccessed secret then
            Inl (TRPCError NOT_FOUND ''Secret has already been accessed'')
          else
            Inr \<lparr>check_id = id' secret, check_title = title secret,
                 requiresPassword = truthy (password secret),
                 check_expiresAt = expiresAt secret,
                 check_isOneTimeAccess = isOneTimeAccess secret,
                 check_createdAt = createdAt secret\<rparr>)"

text \<open>
  \<open>update\<close> and \<open>delete\<close> are protected procedures: the middleware throws \<open>UNAUTHORIZED\<close>
  when the context has no user. In the data of the Prisma update an absent \<open>title\<close> or
  \<open>expiresAt\<close> (\<open>undefined\<close>) leaves the column as it is; when both are absent the data
  is empty, nothing is written (\<open>updatedAt\<close> keeps its value) and the row is returned as
  it is.
\<close>

definition update ::
  "Env \<Rightarrow> Context \<Rightarrow> string \<Rightarrow> string option \<Rightarrow> int option \<Rightarrow> State \<Rightarrow>
     (failure + UpdateOutput) \<times> State" where
  "update e ctx id_in title_in expiresAt_in st =
     (case user ctx of
        None \<Rightarrow> (Inl (TRPCError UNAUTHORIZED ''Not authenticated''), st)
      | Some u \<Rightarrow>
          (case findUniqueById (secrets st) id_in of
             None \<Rightarrow> (Inl (TRPCError NOT_FOUND ''Secret not found''), st)
           | Some secret \<Rightarrow>
               if userId secret \<noteq> Some (user_id u) then
                 (Inl (TRPCError FORBIDDEN ''Not authorized to update this secret''), st)
               else
                 let data = (\<lambda>r. r\<lparr>title := (case title_in of None \<Rightarrow> title r | Some t \<Rightarrow> Some t),
                                    expiresAt := (case expiresAt_in of None \<Rightarrow> expiresAt r
                                                  | Some d \<Rightarrow> Some d)\<rparr>);
                     noData = (title_in = None \<and> expiresAt_in = None);
                     updatedSecret =
                       (if noData then secret else (data secret)\<lparr>updatedAt := dbNow e\<rparr>)
                 in (Inr \<lparr>update_id = id' updatedSecret, update_title = title updatedSecret,
                          update_expiresAt = expiresAt updatedSecret,
                          update_updatedAt = updatedAt updatedSecret\<rparr>,
                     if noData then st
                     else st\<lparr>secrets := secretUpdate id_in data (dbNow e) (secrets st)\<rparr>)))"

definition delete :: "Context \<Rightarrow> string \<Rightarrow> State \<Rightarrow> (failure + bool) \<times> State" where
  "delete ctx id_in st =
     (case user ctx of
        None \<Rightarrow> (Inl (TRPCError UNAUTHORIZED ''Not authenticated''), st)
      | Some u \<Rightarrow>
          (case findUniqueById (secrets st) id_in of
             None \<Rightarrow> (Inl (TRPCError NOT_FOUND ''Secret not found''), st)
           | Some secret \<Rightarrow>
               if userId secret \<noteq> Some (user_id u) then
                 (Inl (TRPCError FORBIDDEN ''Not authorized to delete this secret''), st)
               else (Inr True, secretDelete id_in st)))"

section \<open>The phases of getBySlug\<close>

text \<open>
  \<open>getBySlug\<close> awaits the database three times: it reads the row (\<open>findUnique\<close>), writes the
  access log (\<open>accessLog.create\<close>) and marks the row (\<open>secret.update\<close>). Between two awaits
  of one call the server runs other calls, so each access to the database is a step of
  its own. The three functions below are the three parts of the procedure; what the call
  keeps from one part to the next is its local \<open>secret\<close>, the row as it was read. The
  await of \<open>bcrypt.compare\<close> touches no state and belongs to the first part.
\<close>

text \<open>The guard, \<open>findUnique\<close> and the checks on the row read (up to the password check).\<close>

definition getBySlugRead ::
  "Env \<Rightarrow> Context \<Rightarrow> string \<Rightarrow> string option \<Rightarrow> State \<Rightarrow> (failure + Secret) \<times> State" where
  "getBySlugRead e ctx slug_in password_in st =
     (let (limited, rl') = rateLimitGuard e ctx (secretAccessRateLimit st);
          st1 = st\<lparr>secretAccessRateLimit := rl'\<rparr>
      in if limited then
           (Inl (TRPCError TOO_MANY_REQUESTS
              ''Too many secret access attempts. Please try again later.''), st1)
         else
           case findUniqueBySlug (secrets st1) slug_in of
             None \<Rightarrow> (Inl (TRPCError NOT_FOUND ''Secret not found''), st1)
           | Some secret \<Rightarrow>
               if expired secret (newDate e) then
                 (Inl (TRPCError NOT_FOUND ''Secret has expired''), st1)
               else if isOneTimeAccess secret \<and> hasBeenAccessed secret then
                 (Inl (TRPCError NOT_FOUND ''Secret has already been accessed''), st1)
               else if truthy (password secret) \<and> \<not> truthy password_in then
                 (Inl (TRPCError UNAUTHORIZED ''Password required''), st1)
               else if truthy (password secret) \<and>
                       \<not> bcryptCompare e (the password_in) (the (password secret)) then
                 (Inl (TRPCError UNAUTHORIZED ''Invalid password''), st1)
               else (Inr secret, st1))"

text \<open>
  \<open>prisma.accessLog.create\<close> for the row read. Besides the rejection the environment
  decides, the insert is rejected by the foreign key when the store no longer has a row
  of that id.
\<close>

definition getBySlugLog :: "Env \<Rightarrow> Context \<Rightarrow> Secret \<Rightarrow> State \<Rightarrow> failure + State" where
  "getBySlugLog e ctx secret st =
     (case accessLogError e of
        Some err \<Rightarrow> Inl (PrismaError err)
      | None \<Rightarrow>
          if id' secret \<notin> set (map id' (secrets st)) then Inl (PrismaError ''P2003 secretId'')
          else
            let entry =
                  \<lparr>log_id = cuid e, secretId = id' secret,
                   ipAddress = Some (orDefault
                     (orElse (case req ctx of None \<Rightarrow> None
                              | Some r \<Rightarrow> headers r ''x-forwarded-for'')
                             (case req ctx of None \<Rightarrow> None
                              | Some r \<Rightarrow> headers r ''x-real-ip''))
                     ''unknown''),
                   userAgent = Some (orDefault
                     (case req ctx of None \<Rightarrow> None
                      | Some r \<Rightarrow> headers r ''user-agent'')
                     ''unknown''),
                   accessedAt = dbNow e\<rparr>
            in Inr (st\<lparr>accessLogs := accessLogs st @ [entry]\<rparr>))"

text \<open>
  The end of the procedure: for a one-time secret (by the row read) the unconditional
  \<open>prisma.secret.update\<close> of \<open>hasBeenAccessed\<close>, which is rejected (\<open>P2025\<close>) when the store
  has no row of that id; then the return, from the row read.
\<close>

definition getBySlugMark :: "Env \<Rightarrow> Secret \<Rightarrow> State \<Rightarrow> (failure + GetBySlugOutput) \<times> State" where
  "getBySlugMark e secret st =
     (if isOneTimeAccess secret \<and> id' secret \<notin> set (map id' (secrets st)) then
        (Inl (PrismaError ''P2025''), st)
      else
        (Inr \<lparr>get_id = id' secret, get_title = title secret,
              get_content = content secret, get_expiresAt = expiresAt secret,
              get_isOneTimeAccess = isOneTimeAccess secret,
              get_createdAt = createdAt secret\<rparr>,
         if isOneTimeAccess secret then
           st\<lparr>secrets := secretUpdate (id' secret)
                (\<lambda>r. r\<lparr>hasBeenAccessed := True\<rparr>) (dbNow e) (secrets st)\<rparr>
         else st))"

text \<open>The two writes of a call one after the other, with nothing in between.\<close>

definition getBySlugWrite ::
  "Env \<Rightarrow> Context \<Rightarrow> Secret \<Rightarrow> State \<Rightarrow> (failure + GetBySlugOutput) \<times> State" where
  "getBySlugWrite e ctx secret st =
     (case getBySlugLog e ctx secret st of
        Inl err \<Rightarrow> (Inl err, st)
      | Inr st2 \<Rightarrow> getBySlugMark e secret st2)"

text \<open>
  Two calls for the same slug that overlap: call A reads, call B reads, A writes, B writes.
  The result is what A returns, what B returns, and the state after both.
\<close>

definition overlappingGetBySlug ::
  "Env \<Rightarrow> Context \<Rightarrow> string option \<Rightarrow> Env \<Rightarrow> Context \<Rightarrow> string option \<Rightarrow> string \<Rightarrow> State \<Rightarrow>
     (failure + GetBySlugOutput) \<times> (failure + GetBySlugOutput) \<times> State" where
  "overlappingGetBySlug eA ctxA passwordA eB ctxB passwordB slug_in st =
     (let (readA, st1) = getBySlugRead eA ctxA slug_in passwordA st;
          (readB, st2) = getBySlugRead eB ctxB slug_in passwordB st1;
          (resultA, st3) = (case readA of Inl err \<Rightarrow> (Inl err, st2)
                            | Inr secretA \<Rightarrow> getBySlugWrite eA ctxA secretA st2);
          (resultB, st4) = (case readB of Inl err \<Rightarrow> (Inl err, st3)
                            | Inr secretB \<Rightarrow> getBySlugWrite eB ctxB secretB st3)
      in (resultA, resultB, st4))"

section \<open>The accesses to the database, one at a time\<close>

text \<open>
  Every change a call of the router makes to the state is one of these: a count of a
  limiter, the insert of \<open>create\<close>, the insert of the access log and the mark of
  \<open>getBySlug\<close>, the write of \<open>update\<close>, the removal of \<open>delete\<close>. Calls that overlap
  interleave their accesses; a sequence of accesses covers every such execution.
\<close>

datatype Access =
    CountCreate int string
  | CountAccess int string
  | Insert Secret
  | LogAccess AccessLog
  | MarkAccessed string int
  | SetData string "string option" "int option" int
  | Remove string

fun access :: "Access \<Rightarrow> State \<Rightarrow> State" where
  "access (CountCreate now identifier) st =
     st\<lparr>secretCreateRateLimit := snd (check now identifier (secretCreateRateLimit st))\<rparr>"
| "access (CountAccess now identifier) st =
     st\<lparr>secretAccessRateLimit := snd (check now identifier (secretAccessRateLimit st))\<rparr>"
| "access (Insert row) st = (case secretCreate row st of Inl err \<Rightarrow> st | Inr st' \<Rightarrow> st')"
| "access (LogAccess entry) st = st\<lparr>accessLogs := accessLogs st @ [entry]\<rparr>"
| "access (MarkAccessed i now) st =
     st\<lparr>secrets := secretUpdate i (\<lambda>r. r\<lparr>hasBeenAccessed := True\<rparr>) now (secrets st)\<rparr>"
| "access (SetData i title_in expiresAt_in now) st =
     (if title_in = None \<and> expiresAt_in = None then st
      else st\<lparr>secrets := secretUpdate i
             (\<lambda>r. r\<lparr>title := (case title_in of None \<Rightarrow> title r | Some t \<Rightarrow> Some t),
                    expiresAt := (case expiresAt_in of None \<Rightarrow> expiresAt r
                                  | Some d \<Rightarrow> Some d)\<rparr>) now (secrets st)\<rparr>)"
| "access (Remove i) st = secretDelete i st"

fun accesses :: "Access list \<Rightarrow> State \<Rightarrow> State" where
  "accesses [] st = st"
| "accesses (a # as) st = accesses as (access a st)"

text \<open>The access inserts a row of slug \<open>s\<close>.\<close>

fun insertsSlug :: "string \<Rightarrow> Access \<Rightarrow> bool" where
  "insertsSlug s (Insert row) = (slug row = s)"
| "insertsSlug s _ = False"

text \<open>The guard of \<open>create\<close> or \<open>getBySlug\<close> lets the call through.\<close>

definition admitted :: "Env \<Rightarrow> Context \<Rightarrow> RateLimiter \<Rightarrow> bool" where
  "admitted e ctx rl = (\<not> fst (rateLimitGuard e ctx rl))"

text \<open>The password gate of \<open>getBySlug\<close> lets the call through.\<close>

definition passwordAccepted :: "Env \<Rightarrow> Secret \<Rightarrow> string option \<Rightarrow> bool" where
  "passwordAccepted e secret password_in =
     (truthy (password secret) \<longrightarrow>
        truthy password_in \<and> bcryptCompare e (the password_in) (the (password secret)))"


section \<open>Invariants of the store\<close>

text \<open>The primary key of \<open>secrets\<close> and the unique index on \<open>slug\<close>.\<close>

definition wellFormed :: "State \<Rightarrow> bool" where
  "wellFormed st = (distinct (map id' (secrets st)) \<and> distinct (map slug (secrets st)))"

text \<open>Every row of slug \<open>s\<close> (if any) is a one-time secret that has been accessed.\<close>

definition consumedOrAbsent :: "string \<Rightarrow> Secret list \<Rightarrow> bool" where
  "consumedOrAbsent s rows =
     list_all (\<lambda>r. slug r = s \<longrightarrow> isOneTimeAccess r \<and> hasBeenAccessed r) rows"

section \<open>Example values\<close>

text \<open>
  A stand-in for bcrypt (the hash of \<open>p\<close> is a prefix followed by \<open>p\<close>), a request that came
  through a proxy, and rows and states for evaluating the procedures on concrete inputs.
\<close>

definition exampleEnv :: Env where
  "exampleEnv =
     \<lparr>dateNow = 1000, newDate = 1000, dbNow = 1000,
      nanoid = ''V1StGXR8_Z5j'', cuid = ''cm0001'',
      bcryptHash = (\<lambda>p. ''$2a$12$'' @ p),
      bcryptCompare = (\<lambda>p h. h = ''$2a$12$'' @ p),
      accessLogError = None\<rparr>"

definition secondEnv :: Env where
  "secondEnv = exampleEnv\<lparr>dateNow := 1001, newDate := 1001, dbNow := 1002, cuid := ''cm0002''\<rparr>"

definition exampleRequest :: Request where
  "exampleRequest =
     \<lparr>headers = [''x-forwarded-for'' \<mapsto> ''203.0.113.7, 10.0.0.1'',
                  ''user-agent'' \<mapsto> ''curl/8.5.0'']\<rparr>"

definition exampleContext :: Context where
  "exampleContext = \<lparr>req = Some exampleRequest, user = None\<rparr>"

definition aliceContext :: Context where
  "aliceContext =
     \<lparr>req = Some exampleRequest,
      user = Some \<lparr>user_id = ''alice'', user_email = ''alice@example.org''\<rparr>\<rparr>"

definition exampleSecret :: Secret where
  "exampleSecret =
     \<lparr>id' = ''cm0000'', title = Some ''wifi'', content = ''hunter2'', slug = ''Uakgb_J5m9g-'',
      password = None, expiresAt = Some 1000, isOneTimeAccess = False,
      hasBeenAccessed = False, createdAt = 10, updatedAt = 10, userId = Some ''alice''\<rparr>"

definition exampleState :: State where
  "exampleState = initialState\<lparr>secrets := [exampleSecret], users := [''alice'']\<rparr>"

definition oneTimeState :: State where
  "oneTimeState =
     initialState\<lparr>secrets := [exampleSecret\<lparr>isOneTimeAccess := True, expiresAt := None,
                                              password := Some ''$2a$12$pw''\<rparr>],
                  users := [''alice'']\<rparr>"

definition consumedState :: State where
  "consumedState =
     initialState\<lparr>secrets := [exampleSecret\<lparr>isOneTimeAccess := True, hasBeenAccessed := True\<rparr>],
                  users := [''alice'']\<rparr>"

text \<open>Both limiters have reached their maximum for the client of \<open>exampleRequest\<close>.\<close>

definition exhaustedState :: State where
  "exhaustedState =
     exampleState\<lparr>
       secretCreateRateLimit := secretCreateRateLimit0\<lparr>store :=
         [''203.0.113.7'' \<mapsto> \<lparr>count = 10, resetTime = 5000\<rparr>]\<rparr>,
       secretAccessRateLimit := secretAccessRateLimit0\<lparr>store :=
         [''203.0.113.7'' \<mapsto> \<lparr>count = 20, resetTime = 5000\<rparr>]\<rparr>\<rparr>"

definition noRequestContext :: Context where
  "noRequestContext = \<lparr>req = None, user = None\<rparr>"

definition thirdEnv :: Env where
  "thirdEnv = exampleEnv\<lparr>dateNow := 1001, newDate := 1001, dbNow := 1003, cuid := ''cm0003''\<rparr>"

text \<open>The state after an anonymous \<open>create\<close> of a one-time secret with a password.\<close>

definition oneTimeCreated :: State where
  "oneTimeCreated =
     snd (create exampleEnv exampleContext (Some ''wifi'') ''hunter2'' (Some ''pw'') None True
            initialState)"

section \<open>The rate limiter within one window\<close>

lemma check_frame:
  "windowMs (snd (check now i rl)) = windowMs rl \<and> maxRequests (snd (check now i rl)) = maxRequests rl"
  by (simp add: check_def Let_def)

text \<open>The sweep does not change what \<open>check\<close> answers afterwards, nor the bucket it leaves.\<close>

lemma check_after_cleanup:
  assumes "t \<le> now"
  shows "fst (check now i (cleanup t rl)) = fst (check now i rl) \<and>
         store (snd (check now i (cleanup t rl))) i = store (snd (check now i rl)) i"
  using assms
  by (cases "store rl i") (auto simp add: check_def cleanup_def Let_def)

lemma check_other_identifier:
  "j \<noteq> i \<Longrightarrow> store (snd (check now j rl)) i = store rl i"
  by (simp add: check_def Let_def)

lemma check_in_window:
  assumes "store rl i = Some \<lparr>count = c, resetTime = R\<rparr>" and "t \<le> R"
  shows "check t i rl =
     (if c \<ge> maxRequests rl
      then (\<lparr>allowed = False, remainingRequests = 0, resultResetTime = R\<rparr>, rl)
      else (\<lparr>allowed = True, remainingRequests = maxRequests rl - (c + 1), resultResetTime = R\<rparr>,
            rl\<lparr>store := (store rl)(i \<mapsto> \<lparr>count = c + 1, resetTime = R\<rparr>)\<rparr>))"
  using assms by (simp add: check_def Let_def)

lemma check_opens:
  assumes "opensWindow rl i t"
  shows "check t i rl =
     (\<lparr>allowed = True, remainingRequests = maxRequests rl - 1, resultResetTime = t + windowMs rl\<rparr>,
      rl\<lparr>store := (store rl)(i \<mapsto> \<lparr>count = 1, resetTime = t + windowMs rl\<rparr>)\<rparr>)"
  using assms by (auto simp add: check_def Let_def opensWindow_def split: option.splits)

lemma checks_in_window:
  assumes "store rl i = Some \<lparr>count = c, resetTime = R\<rparr>"
    and "\<forall>t \<in> set ts. t \<le> R"
    and "c \<le> maxRequests rl"
  shows "length (fst (checks i ts rl)) = length ts \<and>
     (\<forall>k < length ts.
        allowed (fst (checks i ts rl) ! k) = (c + int k < maxRequests rl) \<and>
        remainingRequests (fst (checks i ts rl) ! k) = max 0 (maxRequests rl - (c + int k + 1)) \<and>
        resultResetTime (fst (checks i ts rl) ! k) = R) \<and>
     store (snd (checks i ts rl)) i =
        Some \<lparr>count = min (c + int (length ts)) (maxRequests rl), resetTime = R\<rparr> \<and>
     windowMs (snd (checks i ts rl)) = windowMs rl \<and>
     maxRequests (snd (checks i ts rl)) = maxRequests rl"
  using assms
proof (induction ts arbitrary: rl c)
  case Nil
  then show ?case by simp
next
  case (Cons t ts)
  have tR: "t \<le> R" and rest: "\<forall>t \<in> set ts. t \<le> R" using Cons.prems(2) by auto
  note step = check_in_window [OF Cons.prems(1) tR]
  show ?case
  proof (cases "c \<ge> maxRequests rl")
    case True
    with Cons.prems(3) have ceq: "c = maxRequests rl" by simp
    from True step have st: "check t i rl = (\<lparr>allowed = False, remainingRequests = 0, resultResetTime = R\<rparr>, rl)"
      by simp
    from Cons.IH [OF Cons.prems(1) rest Cons.prems(3)] st ceq
    show ?thesis
      by (auto simp add: split_beta Let_def nth_Cons split: nat.splits)
  next
    case False
    let ?rl = "rl\<lparr>store := (store rl)(i \<mapsto> \<lparr>count = c + 1, resetTime = R\<rparr>)\<rparr>"
    from False step have st: "check t i rl =
       (\<lparr>allowed = True, remainingRequests = maxRequests rl - (c + 1), resultResetTime = R\<rparr>, ?rl)"
      by simp
    have a: "store ?rl i = Some \<lparr>count = c + 1, resetTime = R\<rparr>" by simp
    have b: "c + 1 \<le> maxRequests ?rl" using False by simp
    from Cons.IH [OF a rest b] st False
    show ?thesis
      by (auto simp add: split_beta Let_def nth_Cons split: nat.splits)
  qed
qed


lemma checks_append:
  "checks i (xs @ ys) rl =
     (fst (checks i xs rl) @ fst (checks i ys (snd (checks i xs rl))),
      snd (checks i ys (snd (checks i xs rl))))"
  by (induction xs arbitrary: rl) (simp_all add: split_beta Let_def)

lemma checks_snoc:
  "snd (checks i (xs @ [t]) rl) = snd (check t i (snd (checks i xs rl)))"
  by (simp add: checks_append split_beta Let_def)

lemma checks_from_open:
  assumes N: "1 \<le> maxRequests rl"
    and opens: "opensWindow rl i t0"
    and within: "\<forall>t \<in> set ts. t \<le> t0 + windowMs rl"
  shows "length (fst (checks i (t0 # ts) rl)) = Suc (length ts)"
    and "\<forall>k < Suc (length ts).
           allowed (fst (checks i (t0 # ts) rl) ! k) = (int k < maxRequests rl) \<and>
           remainingRequests (fst (checks i (t0 # ts) rl) ! k) = max 0 (maxRequests rl - (int k + 1)) \<and>
           resultResetTime (fst (checks i (t0 # ts) rl) ! k) = t0 + windowMs rl"
    and "store (snd (checks i (t0 # ts) rl)) i =
           Some \<lparr>count = min (int (Suc (length ts))) (maxRequests rl), resetTime = t0 + windowMs rl\<rparr>"
    and "windowMs (snd (checks i (t0 # ts) rl)) = windowMs rl"
    and "maxRequests (snd (checks i (t0 # ts) rl)) = maxRequests rl"
proof -
  let ?rl = "rl\<lparr>store := (store rl)(i \<mapsto> \<lparr>count = 1, resetTime = t0 + windowMs rl\<rparr>)\<rparr>"
  have a: "store ?rl i = Some \<lparr>count = 1, resetTime = t0 + windowMs rl\<rparr>" by simp
  have b: "1 \<le> maxRequests ?rl" using N by simp
  note IH = checks_in_window [OF a within b]
  have st: "checks i (t0 # ts) rl =
      (\<lparr>allowed = True, remainingRequests = maxRequests rl - 1, resultResetTime = t0 + windowMs rl\<rparr>
         # fst (checks i ts ?rl), snd (checks i ts ?rl))"
    by (simp add: check_opens [OF opens] split_beta)
  show "length (fst (checks i (t0 # ts) rl)) = Suc (length ts)"
    using IH st by simp
  show "\<forall>k < Suc (length ts).
           allowed (fst (checks i (t0 # ts) rl) ! k) = (int k < maxRequests rl) \<and>
           remainingRequests (fst (checks i (t0 # ts) rl) ! k) = max 0 (maxRequests rl - (int k + 1)) \<and>
           resultResetTime (fst (checks i (t0 # ts) rl) ! k) = t0 + windowMs rl"
  proof (intro allI impI)
    fix k assume k: "k < Suc (length ts)"
    show "allowed (fst (checks i (t0 # ts) rl) ! k) = (int k < maxRequests rl) \<and>
           remainingRequests (fst (checks i (t0 # ts) rl) ! k) = max 0 (maxRequests rl - (int k + 1)) \<and>
           resultResetTime (fst (checks i (t0 # ts) rl) ! k) = t0 + windowMs rl"
    proof (cases k)
      case 0
      then show ?thesis using N st by simp
    next
      case (Suc j)
      with k have "j < length ts" by simp
      with IH have "allowed (fst (checks i ts ?rl) ! j) = (1 + int j < maxRequests ?rl) \<and>
        remainingRequests (fst (checks i ts ?rl) ! j) = max 0 (maxRequests ?rl - (1 + int j + 1)) \<and>
        resultResetTime (fst (checks i ts ?rl) ! j) = t0 + windowMs rl"
        by blast
      then show ?thesis using Suc st by (simp add: add.commute)
    qed
  qed
  show "store (snd (checks i (t0 # ts) rl)) i =
           Some \<lparr>count = min (int (Suc (length ts))) (maxRequests rl), resetTime = t0 + windowMs rl\<rparr>"
    using IH st by (simp add: add.commute)
  show "windowMs (snd (checks i (t0 # ts) rl)) = windowMs rl"
    using IH st by simp
  show "maxRequests (snd (checks i (t0 # ts) rl)) = maxRequests rl"
    using IH st by simp
qed

text \<open>
  Claim C4. For a limiter with \<open>maxRequests = N\<close> (at least 1, as for every limiter the
  module builds): a request that finds no bucket, or arrives after the bucket's
  \<open>resetTime\<close>, is allowed and sets the bucket to count 1 with
  \<open>resetTime = now + windowMs\<close>; of the requests of that identity up to \<open>resetTime\<close>, the
  first \<open>N\<close> are allowed and every later one is rejected with 0 remaining and leaves the
  limiter as it was, so the count stays at \<open>N\<close>; the first request after \<open>resetTime\<close> is
  allowed again and opens a new window.
\<close>

theorem rate_limit_window:
  assumes N: "1 \<le> maxRequests rl"
    and opens: "opensWindow rl i t0"
    and within: "\<forall>t \<in> set ts. t \<le> t0 + windowMs rl"
    and run: "checks i (t0 # ts) rl = (rs, rl')"
    and later: "t1 > t0 + windowMs rl"
  shows "check t0 i rl =
           (\<lparr>allowed = True, remainingRequests = maxRequests rl - 1,
             resultResetTime = t0 + windowMs rl\<rparr>,
            rl\<lparr>store := (store rl)(i \<mapsto> \<lparr>count = 1, resetTime = t0 + windowMs rl\<rparr>)\<rparr>) \<and>
         length rs = Suc (length ts) \<and>
         (\<forall>k < length rs. allowed (rs ! k) = (int k < maxRequests rl)) \<and>
         (\<forall>k < length rs. \<not> allowed (rs ! k) \<longrightarrow>
            remainingRequests (rs ! k) = 0 \<and>
            snd (checks i (take (Suc k) (t0 # ts)) rl) = snd (checks i (take k (t0 # ts)) rl)) \<and>
         store rl' i =
           Some \<lparr>count = min (int (length rs)) (maxRequests rl), resetTime = t0 + windowMs rl\<rparr> \<and>
         check t1 i rl' =
           (\<lparr>allowed = True, remainingRequests = maxRequests rl - 1,
             resultResetTime = t1 + windowMs rl\<rparr>,
            rl'\<lparr>store := (store rl')(i \<mapsto> \<lparr>count = 1, resetTime = t1 + windowMs rl\<rparr>)\<rparr>)"
proof -
  note F = checks_from_open [OF N opens within]
  have rs: "rs = fst (checks i (t0 # ts) rl)" and rl': "rl' = snd (checks i (t0 # ts) rl)"
    using run by simp_all
  have len: "length rs = Suc (length ts)" using F(1) rs by simp
  have alw: "\<forall>k < length rs. allowed (rs ! k) = (int k < maxRequests rl)"
    using F(2) rs len by simp
  have st: "store rl' i =
      Some \<lparr>count = min (int (length rs)) (maxRequests rl), resetTime = t0 + windowMs rl\<rparr>"
    using F(3) rl' len by simp
  have rej: "\<forall>k < length rs. \<not> allowed (rs ! k) \<longrightarrow>
            remainingRequests (rs ! k) = 0 \<and>
            snd (checks i (take (Suc k) (t0 # ts)) rl) = snd (checks i (take k (t0 # ts)) rl)"
  proof (intro allI impI)
    fix k assume k: "k < length rs" and nal: "\<not> allowed (rs ! k)"
    from alw k nal have big: "maxRequests rl \<le> int k" by simp
    with N obtain j where kj: "k = Suc j" by (cases k) auto
    have rem: "remainingRequests (rs ! k) = 0"
      using F(2) rs len k big by simp
    have jl: "j \<le> length ts" using k len kj by simp
    let ?pre = "take j ts"
    have within': "\<forall>t \<in> set ?pre. t \<le> t0 + windowMs rl"
      using within by (meson in_set_takeD)
    note G = checks_from_open [OF N opens within']
    have tk: "take k (t0 # ts) = t0 # ?pre" using kj by simp
    have tk1: "take (Suc k) (t0 # ts) = (t0 # ?pre) @ [ts ! j]"
      using kj k len by (simp add: take_Suc_conv_app_nth)
    have tin: "ts ! j \<le> t0 + windowMs rl" using within k len kj by simp
    have cnt: "store (snd (checks i (t0 # ?pre) rl)) i =
        Some \<lparr>count = maxRequests rl, resetTime = t0 + windowMs rl\<rparr>"
      using G(3) jl big kj by (simp add: min_def)
    have "snd (check (ts ! j) i (snd (checks i (t0 # ?pre) rl))) = snd (checks i (t0 # ?pre) rl)"
      using check_in_window [OF cnt tin] G(5) by simp
    then have "snd (checks i (take (Suc k) (t0 # ts)) rl) = snd (checks i (take k (t0 # ts)) rl)"
      unfolding tk tk1 checks_snoc .
    with rem show "remainingRequests (rs ! k) = 0 \<and>
            snd (checks i (take (Suc k) (t0 # ts)) rl) = snd (checks i (take k (t0 # ts)) rl)"
      by simp
  qed
  have op1: "opensWindow rl' i t1"
    using st later by (simp add: opensWindow_def)
  have nxt: "check t1 i rl' =
           (\<lparr>allowed = True, remainingRequests = maxRequests rl - 1,
             resultResetTime = t1 + windowMs rl\<rparr>,
            rl'\<lparr>store := (store rl')(i \<mapsto> \<lparr>count = 1, resetTime = t1 + windowMs rl\<rparr>)\<rparr>)"
    using check_opens [OF op1] F(4) F(5) rl' by simp
  show ?thesis
    using check_opens [OF opens] len alw rej st nxt by blast
qed

theorem rate_limit_window_witness:
  "1 \<le> maxRequests (newRateLimiter 1000 2) \<and>
   opensWindow (newRateLimiter 1000 2) ''10.0.0.1'' 5 \<and>
   list_all (\<lambda>t. t \<le> 5 + windowMs (newRateLimiter 1000 2)) [6, 7, 1005] \<and>
   map allowed (fst (checks ''10.0.0.1'' [5, 6, 7, 1005] (newRateLimiter 1000 2)))
     = [True, True, False, False] \<and>
   map remainingRequests (fst (checks ''10.0.0.1'' [5, 6, 7, 1005] (newRateLimiter 1000 2)))
     = [1, 0, 0, 0] \<and>
   store (snd (checks ''10.0.0.1'' [5, 6, 7, 1005] (newRateLimiter 1000 2))) ''10.0.0.1''
     = Some \<lparr>count = 2, resetTime = 1005\<rparr> \<and>
   allowed (fst (check 1006 ''10.0.0.1''
      (snd (checks ''10.0.0.1'' [5, 6, 7, 1005] (newRateLimiter 1000 2)))))"
  using rate_limit_window [of "newRateLimiter 1000 2" "''10.0.0.1''" 5 "[6, 7, 1005]"
      "fst (checks ''10.0.0.1'' [5, 6, 7, 1005] (newRateLimiter 1000 2))"
      "snd (checks ''10.0.0.1'' [5, 6, 7, 1005] (newRateLimiter 1000 2))" 1006]
  by (simp add: newRateLimiter_def opensWindow_def check_def Let_def)

section \<open>Evaluating the examples\<close>

lemmas example_defs =
  exampleEnv_def secondEnv_def thirdEnv_def exampleRequest_def exampleContext_def aliceContext_def
  exampleSecret_def exampleState_def oneTimeState_def initialState_def
  secretCreateRateLimit0_def secretAccessRateLimit0_def newRateLimiter_def

lemmas eval_defs =
  getBySlug_def create_def checkRequirements_def update_def delete_def rateLimitGuard_def
  check_def getClientIdentifier_def truthy_def orElse_def orDefault_def trim_def
  splitCommaFirst_def isWhiteSpace_def findUniqueBySlug_def findUniqueById_def
  secretCreate_def secretUpdate_def secretDelete_def expired_def admitted_def
  passwordAccepted_def wellFormed_def Let_def split_beta

section \<open>The gates of disclosure: absent, expired and consumed secrets\<close>

lemma getBySlug_admitted:
  assumes "admitted e ctx (secretAccessRateLimit st)"
  shows "fst (getBySlug e ctx s p st) =
     (case findUniqueBySlug (secrets st) s of
        None \<Rightarrow> Inl (TRPCError NOT_FOUND ''Secret not found'')
      | Some secret \<Rightarrow>
          if expired secret (newDate e) then Inl (TRPCError NOT_FOUND ''Secret has expired'')
          else if isOneTimeAccess secret \<and> hasBeenAccessed secret then
            Inl (TRPCError NOT_FOUND ''Secret has already been accessed'')
          else if truthy (password secret) \<and> \<not> truthy p then
            Inl (TRPCError UNAUTHORIZED ''Password required'')
          else if truthy (password secret) \<and>
                  \<not> bcryptCompare e (the p) (the (password secret)) then
            Inl (TRPCError UNAUTHORIZED ''Invalid password'')
          else case accessLogError e of
                 Some err \<Rightarrow> Inl (PrismaError err)
               | None \<Rightarrow> Inr \<lparr>get_id = id' secret, get_title = title secret,
                              get_content = content secret, get_expiresAt = expiresAt secret,
                              get_isOneTimeAccess = isOneTimeAccess secret,
                              get_createdAt = createdAt secret\<rparr>)"
  using assms
  by (simp add: getBySlug_def admitted_def split_beta Let_def split: option.splits)

text \<open>
  Claim C2, as amended. For every slug, \<open>checkRequirements\<close> and every \<open>getBySlug\<close> the
  limiter admits throw a \<open>TRPCError\<close> of code \<open>NOT_FOUND\<close> when no row has the slug, when
  the row is expired, and when the row is a one-time secret already accessed; the two
  procedures throw the same error in each case, and its message names the case:
  \<open>Secret not found\<close>, \<open>Secret has expired\<close>, \<open>Secret has already been accessed\<close>.
\<close>

theorem not_found_cases:
  assumes "admitted e ctx (secretAccessRateLimit st)"
  shows "(findUniqueBySlug (secrets st) s = None \<longrightarrow>
            checkRequirements e s st = Inl (TRPCError NOT_FOUND ''Secret not found'') \<and>
            fst (getBySlug e ctx s p st) = Inl (TRPCError NOT_FOUND ''Secret not found'')) \<and>
         (\<forall>secret. findUniqueBySlug (secrets st) s = Some secret \<and> expired secret (newDate e) \<longrightarrow>
            checkRequirements e s st = Inl (TRPCError NOT_FOUND ''Secret has expired'') \<and>
            fst (getBySlug e ctx s p st) = Inl (TRPCError NOT_FOUND ''Secret has expired'')) \<and>
         (\<forall>secret. findUniqueBySlug (secrets st) s = Some secret \<and> \<not> expired secret (newDate e) \<and>
              isOneTimeAccess secret \<and> hasBeenAccessed secret \<longrightarrow>
            checkRequirements e s st =
              Inl (TRPCError NOT_FOUND ''Secret has already been accessed'') \<and>
            fst (getBySlug e ctx s p st) =
              Inl (TRPCError NOT_FOUND ''Secret has already been accessed''))"
  using getBySlug_admitted [OF assms, of s p]
  by (auto simp add: checkRequirements_def)

theorem not_found_cases_witness:
  "checkRequirements exampleEnv ''none'' exampleState =
     Inl (TRPCError NOT_FOUND ''Secret not found'') \<and>
   fst (getBySlug exampleEnv exampleContext ''none'' None exampleState) =
     Inl (TRPCError NOT_FOUND ''Secret not found'') \<and>
   checkRequirements (exampleEnv\<lparr>newDate := 1001\<rparr>) ''Uakgb_J5m9g-'' exampleState =
     Inl (TRPCError NOT_FOUND ''Secret has expired'') \<and>
   fst (getBySlug (exampleEnv\<lparr>newDate := 1001\<rparr>) exampleContext ''Uakgb_J5m9g-'' None exampleState) =
     Inl (TRPCError NOT_FOUND ''Secret has expired'') \<and>
   checkRequirements exampleEnv ''Uakgb_J5m9g-'' consumedState =
     Inl (TRPCError NOT_FOUND ''Secret has already been accessed'') \<and>
   fst (getBySlug exampleEnv exampleContext ''Uakgb_J5m9g-'' None consumedState) =
     Inl (TRPCError NOT_FOUND ''Secret has already been accessed'')"
  using not_found_cases [of exampleEnv exampleContext exampleState "''none''" None]
    not_found_cases [of "exampleEnv\<lparr>newDate := 1001\<rparr>" exampleContext exampleState
      "''Uakgb_J5m9g-''" None]
    not_found_cases [of exampleEnv exampleContext consumedState "''Uakgb_J5m9g-''" None]
  by (simp add: example_defs consumedState_def eval_defs)

theorem not_found_messages_differ:
  "checkRequirements exampleEnv ''none'' exampleState \<noteq>
     checkRequirements (exampleEnv\<lparr>newDate := 1001\<rparr>) ''Uakgb_J5m9g-'' exampleState \<and>
   checkRequirements exampleEnv ''none'' exampleState \<noteq>
     checkRequirements exampleEnv ''Uakgb_J5m9g-'' consumedState \<and>
   fst (getBySlug exampleEnv exampleContext ''none'' None exampleState) \<noteq>
     fst (getBySlug (exampleEnv\<lparr>newDate := 1001\<rparr>) exampleContext ''Uakgb_J5m9g-'' None exampleState) \<and>
   fst (getBySlug exampleEnv exampleContext ''none'' None exampleState) \<noteq>
     fst (getBySlug exampleEnv exampleContext ''Uakgb_J5m9g-'' None consumedState)"
  by (simp add: example_defs consumedState_def eval_defs)

text \<open>
  Claim C7, as amended. A secret with \<open>expiresAt\<close> set is expired exactly when
  \<open>expiresAt < now\<close>. When it is, \<open>checkRequirements\<close> and every \<open>getBySlug\<close> the limiter
  admits throw \<open>NOT_FOUND\<close>, whatever \<open>hasBeenAccessed\<close> is. At \<open>now = expiresAt\<close> (and
  before) the secret is not expired, and neither procedure throws the error of an
  expired secret.
\<close>

theorem expiry_strict:
  assumes "findUniqueBySlug (secrets st) s = Some secret"
    and "expiresAt secret = Some t"
    and "admitted e ctx (secretAccessRateLimit st)"
  shows "expired secret (newDate e) = (t < newDate e) \<and>
         (t < newDate e \<longrightarrow>
            checkRequirements e s st = Inl (TRPCError NOT_FOUND ''Secret has expired'') \<and>
            fst (getBySlug e ctx s p st) = Inl (TRPCError NOT_FOUND ''Secret has expired'')) \<and>
         (newDate e \<le> t \<longrightarrow>
            checkRequirements e s st \<noteq> Inl (TRPCError NOT_FOUND ''Secret has expired'') \<and>
            fst (getBySlug e ctx s p st) \<noteq> Inl (TRPCError NOT_FOUND ''Secret has expired'') \<and>
            (\<not> (isOneTimeAccess secret \<and> hasBeenAccessed secret) \<longrightarrow>
               checkRequirements e s st =
                 Inr \<lparr>check_id = id' secret, check_title = title secret,
                      requiresPassword = truthy (password secret),
                      check_expiresAt = expiresAt secret,
                      check_isOneTimeAccess = isOneTimeAccess secret,
                      check_createdAt = createdAt secret\<rparr>))"
  using assms getBySlug_admitted [OF assms(3), of s p]
  by (auto simp add: checkRequirements_def expired_def split: option.splits)

theorem expiry_strict_witness:
  "expired exampleSecret 1001 \<and> \<not> expired exampleSecret 1000 \<and>
   checkRequirements (exampleEnv\<lparr>newDate := 1001\<rparr>) ''Uakgb_J5m9g-'' exampleState =
     Inl (TRPCError NOT_FOUND ''Secret has expired'') \<and>
   fst (getBySlug (exampleEnv\<lparr>newDate := 1001\<rparr>) exampleContext ''Uakgb_J5m9g-'' None exampleState) =
     Inl (TRPCError NOT_FOUND ''Secret has expired'') \<and>
   checkRequirements exampleEnv ''Uakgb_J5m9g-'' exampleState =
     Inr \<lparr>check_id = ''cm0000'', check_title = Some ''wifi'', requiresPassword = False,
          check_expiresAt = Some 1000, check_isOneTimeAccess = False, check_createdAt = 10\<rparr>"
  using expiry_strict [of exampleState "''Uakgb_J5m9g-''" exampleSecret 1000
      "exampleEnv\<lparr>newDate := 1001\<rparr>" exampleContext None]
    expiry_strict [of exampleState "''Uakgb_J5m9g-''" exampleSecret 1000
      exampleEnv exampleContext None]
  by (simp add: example_defs eval_defs)

theorem not_expired_at_expiresAt:
  "expiresAt exampleSecret = Some (newDate exampleEnv) \<and>
   findUniqueBySlug (secrets exampleState) ''Uakgb_J5m9g-'' = Some exampleSecret \<and>
   checkRequirements exampleEnv ''Uakgb_J5m9g-'' exampleState =
     Inr \<lparr>check_id = ''cm0000'', check_title = Some ''wifi'', requiresPassword = False,
          check_expiresAt = Some 1000, check_isOneTimeAccess = False, check_createdAt = 10\<rparr> \<and>
   fst (getBySlug exampleEnv exampleContext ''Uakgb_J5m9g-'' None exampleState) =
     Inr \<lparr>get_id = ''cm0000'', get_title = Some ''wifi'', get_content = ''hunter2'',
          get_expiresAt = Some 1000, get_isOneTimeAccess = False, get_createdAt = 10\<rparr>"
  by (simp add: example_defs eval_defs)

section \<open>The password gate and the access log\<close>

text \<open>
  Claim C3. For a live secret (stored, not expired, not a consumed one-time secret) and a
  \<open>getBySlug\<close> the limiter admits: the call throws \<open>UNAUTHORIZED\<close> exactly when the
  secret has a password hash and the supplied password is absent (or empty, which
  JavaScript takes for absent), with the message \<open>Password required\<close>, or is rejected by
  \<open>bcrypt.compare\<close>, with the message \<open>Invalid password\<close>. With no password hash stored
  the call needs no password: it returns the content whenever the access log is written.
\<close>

theorem password_gate:
  assumes "findUniqueBySlug (secrets st) s = Some secret"
    and "\<not> expired secret (newDate e)"
    and "\<not> (isOneTimeAccess secret \<and> hasBeenAccessed secret)"
    and "admitted e ctx (secretAccessRateLimit st)"
  shows "((\<exists>m. fst (getBySlug e ctx s p st) = Inl (TRPCError UNAUTHORIZED m)) \<longleftrightarrow>
            truthy (password secret) \<and>
            (\<not> truthy p \<or> \<not> bcryptCompare e (the p) (the (password secret)))) \<and>
         (truthy (password secret) \<and> \<not> truthy p \<longrightarrow>
            fst (getBySlug e ctx s p st) = Inl (TRPCError UNAUTHORIZED ''Password required'')) \<and>
         (truthy (password secret) \<and> truthy p \<and>
            \<not> bcryptCompare e (the p) (the (password secret)) \<longrightarrow>
            fst (getBySlug e ctx s p st) = Inl (TRPCError UNAUTHORIZED ''Invalid password'')) \<and>
         (\<not> truthy (password secret) \<and> accessLogError e = None \<longrightarrow>
            fst (getBySlug e ctx s p st) =
              Inr \<lparr>get_id = id' secret, get_title = title secret,
                   get_content = content secret, get_expiresAt = expiresAt secret,
                   get_isOneTimeAccess = isOneTimeAccess secret,
                   get_createdAt = createdAt secret\<rparr>)"
  using assms(1-3) getBySlug_admitted [OF assms(4), of s p]
  by (auto split: option.splits)

theorem password_gate_witness:
  "fst (getBySlug exampleEnv exampleContext ''Uakgb_J5m9g-'' None oneTimeState) =
     Inl (TRPCError UNAUTHORIZED ''Password required'') \<and>
   fst (getBySlug exampleEnv exampleContext ''Uakgb_J5m9g-'' (Some '''') oneTimeState) =
     Inl (TRPCError UNAUTHORIZED ''Password required'') \<and>
   fst (getBySlug exampleEnv exampleContext ''Uakgb_J5m9g-'' (Some ''guess'') oneTimeState) =
     Inl (TRPCError UNAUTHORIZED ''Invalid password'') \<and>
   fst (getBySlug exampleEnv exampleContext ''Uakgb_J5m9g-'' None exampleState) =
     Inr \<lparr>get_id = ''cm0000'', get_title = Some ''wifi'', get_content = ''hunter2'',
          get_expiresAt = Some 1000, get_isOneTimeAccess = False, get_createdAt = 10\<rparr>"
  using password_gate [of oneTimeState "''Uakgb_J5m9g-''"
      "exampleSecret\<lparr>isOneTimeAccess := True, expiresAt := None, password := Some ''$2a$12$pw''\<rparr>"
      exampleEnv exampleContext None]
    password_gate [of oneTimeState "''Uakgb_J5m9g-''"
      "exampleSecret\<lparr>isOneTimeAccess := True, expiresAt := None, password := Some ''$2a$12$pw''\<rparr>"
      exampleEnv exampleContext "Some ''''"]
    password_gate [of oneTimeState "''Uakgb_J5m9g-''"
      "exampleSecret\<lparr>isOneTimeAccess := True, expiresAt := None, password := Some ''$2a$12$pw''\<rparr>"
      exampleEnv exampleContext "Some ''guess''"]
    password_gate [of exampleState "''Uakgb_J5m9g-''" exampleSecret exampleEnv exampleContext None]
  by (simp add: example_defs eval_defs)

text \<open>
  Claim C5, as amended. The procedure does not catch a rejection of
  \<open>prisma.accessLog.create\<close>: when a \<open>getBySlug\<close> has passed every gate and the write of
  the access log is rejected, the call fails with that error, returns no content, writes
  no log row and leaves the secret as it was (a one-time secret is not marked accessed);
  only the limiter has counted the call. When the write succeeds the call returns the
  content.
\<close>

theorem access_log_failure_propagates:
  assumes "findUniqueBySlug (secrets st) s = Some secret"
    and "\<not> expired secret (newDate e)"
    and "\<not> (isOneTimeAccess secret \<and> hasBeenAccessed secret)"
    and "passwordAccepted e secret p"
    and "admitted e ctx (secretAccessRateLimit st)"
  shows "(\<forall>err. accessLogError e = Some err \<longrightarrow>
            getBySlug e ctx s p st =
              (Inl (PrismaError err),
               st\<lparr>secretAccessRateLimit :=
                    snd (rateLimitGuard e ctx (secretAccessRateLimit st))\<rparr>)) \<and>
         (accessLogError e = None \<longrightarrow>
            fst (getBySlug e ctx s p st) =
              Inr \<lparr>get_id = id' secret, get_title = title secret,
                   get_content = content secret, get_expiresAt = expiresAt secret,
                   get_isOneTimeAccess = isOneTimeAccess secret,
                   get_createdAt = createdAt secret\<rparr>)"
  using assms
  by (auto simp add: getBySlug_def admitted_def passwordAccepted_def split_beta Let_def)

theorem access_log_failure_propagates_witness:
  "getBySlug (exampleEnv\<lparr>accessLogError := Some ''P1001''\<rparr>) exampleContext ''Uakgb_J5m9g-''
     (Some ''pw'') oneTimeState =
     (Inl (PrismaError ''P1001''),
      oneTimeState\<lparr>secretAccessRateLimit :=
        snd (check 1000 ''203.0.113.7'' (secretAccessRateLimit oneTimeState))\<rparr>) \<and>
   fst (getBySlug exampleEnv exampleContext ''Uakgb_J5m9g-'' (Some ''pw'') oneTimeState) =
     Inr \<lparr>get_id = ''cm0000'', get_title = Some ''wifi'', get_content = ''hunter2'',
          get_expiresAt = None, get_isOneTimeAccess = True, get_createdAt = 10\<rparr>"
  using access_log_failure_propagates [of oneTimeState "''Uakgb_J5m9g-''"
      "exampleSecret\<lparr>isOneTimeAccess := True, expiresAt := None, password := Some ''$2a$12$pw''\<rparr>"
      "exampleEnv\<lparr>accessLogError := Some ''P1001''\<rparr>" "Some ''pw''" exampleContext]
    access_log_failure_propagates [of oneTimeState "''Uakgb_J5m9g-''"
      "exampleSecret\<lparr>isOneTimeAccess := True, expiresAt := None, password := Some ''$2a$12$pw''\<rparr>"
      exampleEnv "Some ''pw''" exampleContext]
  by (simp add: example_defs eval_defs)

theorem access_log_failure_fails_disclosure:
  "passwordAccepted (exampleEnv\<lparr>accessLogError := Some ''P1001''\<rparr>)
     (exampleSecret\<lparr>isOneTimeAccess := True, expiresAt := None, password := Some ''$2a$12$pw''\<rparr>)
     (Some ''pw'') \<and>
   fst (getBySlug (exampleEnv\<lparr>accessLogError := Some ''P1001''\<rparr>) exampleContext
          ''Uakgb_J5m9g-'' (Some ''pw'') oneTimeState) = Inl (PrismaError ''P1001'') \<and>
   secrets (snd (getBySlug (exampleEnv\<lparr>accessLogError := Some ''P1001''\<rparr>) exampleContext
          ''Uakgb_J5m9g-'' (Some ''pw'') oneTimeState)) = secrets oneTimeState"
  by (simp add: example_defs eval_defs)

section \<open>Creation and the slug\<close>

lemma create_admitted:
  assumes "c \<noteq> []" and "admitted e ctx (secretCreateRateLimit st)"
  shows "create e ctx t c p x o1 st =
     (let st1 = st\<lparr>secretCreateRateLimit := snd (rateLimitGuard e ctx (secretCreateRateLimit st))\<rparr>;
          row = \<lparr>id' = cuid e, title = t, content = c, slug = nanoid e,
                 password = (if truthy p then Some (bcryptHash e (the p)) else None),
                 expiresAt = x, isOneTimeAccess = o1, hasBeenAccessed = False,
                 createdAt = dbNow e, updatedAt = dbNow e,
                 userId = map_option user_id (user ctx)\<rparr>
      in if cuid e \<in> set (map id' (secrets st)) then (Inl (PrismaError ''P2002 id''), st1)
         else if nanoid e \<in> set (map slug (secrets st)) then (Inl (PrismaError ''P2002 slug''), st1)
         else if user ctx \<noteq> None \<and> user_id (the (user ctx)) \<notin> set (users st)
           then (Inl (PrismaError ''P2003 userId''), st1)
         else (Inr \<lparr>create_id = cuid e, create_slug = nanoid e, create_title = t,
                    create_expiresAt = x, create_isOneTimeAccess = o1,
                    create_createdAt = dbNow e\<rparr>,
               st1\<lparr>secrets := secrets st @ [row]\<rparr>))"
  using assms
  by (auto simp add: create_def admitted_def secretCreate_def split_beta Let_def)

text \<open>
  Claim C6, as amended. \<open>create\<close> draws one slug with \<open>nanoid(12)\<close> and does not retry:
  when a row of the store already has the slug, the insert is rejected by the unique
  constraint, the call fails with that error and the table is unchanged; when neither
  the slug nor the id is in the store (and the owner, if any, exists) the row is
  inserted with the slug drawn and the call returns it.
\<close>

theorem create_slug_collision:
  assumes "content_in \<noteq> []"
    and "admitted e ctx (secretCreateRateLimit st)"
    and "cuid e \<notin> set (map id' (secrets st))"
  shows "(nanoid e \<in> set (map slug (secrets st)) \<longrightarrow>
            fst (create e ctx title_in content_in password_in expiresAt_in o1 st) =
              Inl (PrismaError ''P2002 slug'') \<and>
            secrets (snd (create e ctx title_in content_in password_in expiresAt_in o1 st)) =
              secrets st) \<and>
         (nanoid e \<notin> set (map slug (secrets st)) \<and>
          (\<forall>u. user ctx = Some u \<longrightarrow> user_id u \<in> set (users st)) \<longrightarrow>
            (\<exists>out. fst (create e ctx title_in content_in password_in expiresAt_in o1 st) = Inr out \<and>
                   create_slug out = nanoid e) \<and>
            (\<exists>row. secrets (snd (create e ctx title_in content_in password_in expiresAt_in o1 st)) =
                     secrets st @ [row] \<and> slug row = nanoid e))"
  using assms(3) create_admitted [OF assms(1,2), of title_in password_in expiresAt_in o1]
  by (auto simp add: Let_def)

theorem create_slug_collision_witness:
  "fst (create (exampleEnv\<lparr>nanoid := ''Uakgb_J5m9g-''\<rparr>) exampleContext None ''s3cr3t'' None None
          False exampleState) = Inl (PrismaError ''P2002 slug'') \<and>
   secrets (snd (create (exampleEnv\<lparr>nanoid := ''Uakgb_J5m9g-''\<rparr>) exampleContext None ''s3cr3t''
          None None False exampleState)) = [exampleSecret] \<and>
   fst (create exampleEnv exampleContext None ''s3cr3t'' None None False exampleState) =
     Inr \<lparr>create_id = ''cm0001'', create_slug = ''V1StGXR8_Z5j'', create_title = None,
          create_expiresAt = None, create_isOneTimeAccess = False, create_createdAt = 1000\<rparr>"
  using create_slug_collision [of "''s3cr3t''" "exampleEnv\<lparr>nanoid := ''Uakgb_J5m9g-''\<rparr>"
      exampleContext exampleState None None None False]
    create_slug_collision [of "''s3cr3t''" exampleEnv exampleContext exampleState None None None False]
  by (simp add: example_defs eval_defs)

theorem create_fails_on_slug_collision:
  "slug exampleSecret = nanoid (exampleEnv\<lparr>nanoid := ''Uakgb_J5m9g-''\<rparr>) \<and>
   create (exampleEnv\<lparr>nanoid := ''Uakgb_J5m9g-''\<rparr>) exampleContext None ''s3cr3t'' None None
      False exampleState =
     (Inl (PrismaError ''P2002 slug''),
      exampleState\<lparr>secretCreateRateLimit :=
        snd (check 1000 ''203.0.113.7'' (secretCreateRateLimit exampleState))\<rparr>)"
  by (simp add: example_defs eval_defs)

section \<open>Update\<close>

lemma secretUpdate_frame:
  assumes "\<And>r. g (f r) = g r" and "\<And>r now. g (r\<lparr>updatedAt := now\<rparr>) = g r"
  shows "map g (secretUpdate i f now rows) = map g rows"
  using assms by (induction rows) (simp_all add: secretUpdate_def)

lemma secretUpdate_others:
  "length (secretUpdate i f now rows) = length rows \<and>
   (\<forall>k < length rows. id' (rows ! k) \<noteq> i \<longrightarrow> secretUpdate i f now rows ! k = rows ! k)"
  by (simp add: secretUpdate_def)

lemma secretUpdate_target:
  "k < length rows \<Longrightarrow> id' (rows ! k) = i \<Longrightarrow>
   secretUpdate i f now rows ! k = (f (rows ! k))\<lparr>updatedAt := now\<rparr>"
  by (simp add: secretUpdate_def)

text \<open>
  Claim C8. For an authenticated caller, \<open>update\<close> throws \<open>NOT_FOUND\<close> when no row has
  the id and \<open>FORBIDDEN\<close> when the row's \<open>userId\<close> is not the caller's id, and changes
  nothing in either case. Otherwise, when a \<open>title\<close> or an \<open>expiresAt\<close> is given, it writes
  the ones given and \<open>updatedAt\<close> of the row of that id; when neither is given it writes
  nothing and returns the row as it is. Every \<open>update\<close> leaves the id, content, slug,
  password hash, \<open>isOneTimeAccess\<close>, \<open>hasBeenAccessed\<close>, \<open>createdAt\<close> and owner of every row,
  every other row, the access logs, the users and the limiters as they were.
\<close>

theorem update_frame:
  assumes "user ctx = Some u"
    and "update e ctx id_in title_in expiresAt_in st = (res, st')"
  shows "(findUniqueById (secrets st) id_in = None \<longrightarrow>
            res = Inl (TRPCError NOT_FOUND ''Secret not found'') \<and> st' = st) \<and>
         (\<forall>secret. findUniqueById (secrets st) id_in = Some secret \<and>
              userId secret \<noteq> Some (user_id u) \<longrightarrow>
            res = Inl (TRPCError FORBIDDEN ''Not authorized to update this secret'') \<and> st' = st) \<and>
         (\<forall>secret. findUniqueById (secrets st) id_in = Some secret \<and>
              userId secret = Some (user_id u) \<and> (title_in \<noteq> None \<or> expiresAt_in \<noteq> None) \<longrightarrow>
            res = Inr \<lparr>update_id = id' secret,
                       update_title = (case title_in of None \<Rightarrow> title secret | Some t \<Rightarrow> Some t),
                       update_expiresAt =
                         (case expiresAt_in of None \<Rightarrow> expiresAt secret | Some d \<Rightarrow> Some d),
                       update_updatedAt = dbNow e\<rparr> \<and>
            (\<forall>k < length (secrets st). id' (secrets st ! k) = id_in \<longrightarrow>
               secrets st' ! k =
                 (secrets st ! k)
                   \<lparr>title := (case title_in of None \<Rightarrow> title (secrets st ! k) | Some t \<Rightarrow> Some t),
                    expiresAt := (case expiresAt_in of None \<Rightarrow> expiresAt (secrets st ! k)
                                  | Some d \<Rightarrow> Some d),
                    updatedAt := dbNow e\<rparr>)) \<and>
         (\<forall>secret. findUniqueById (secrets st) id_in = Some secret \<and>
              userId secret = Some (user_id u) \<and> title_in = None \<and> expiresAt_in = None \<longrightarrow>
            res = Inr \<lparr>update_id = id' secret, update_title = title secret,
                       update_expiresAt = expiresAt secret,
                       update_updatedAt = updatedAt secret\<rparr> \<and> st' = st) \<and>
         map (\<lambda>r. (id' r, content r, slug r, password r, isOneTimeAccess r, hasBeenAccessed r,
                   createdAt r, userId r)) (secrets st') =
         map (\<lambda>r. (id' r, content r, slug r, password r, isOneTimeAccess r, hasBeenAccessed r,
                   createdAt r, userId r)) (secrets st) \<and>
         length (secrets st') = length (secrets st) \<and>
         (\<forall>k < length (secrets st). id' (secrets st ! k) \<noteq> id_in \<longrightarrow>
            secrets st' ! k = secrets st ! k) \<and>
         accessLogs st' = accessLogs st \<and> users st' = users st \<and>
         secretCreateRateLimit st' = secretCreateRateLimit st \<and>
         secretAccessRateLimit st' = secretAccessRateLimit st"
proof -
  let ?data = "\<lambda>r. r\<lparr>title := (case title_in of None \<Rightarrow> title r | Some t \<Rightarrow> Some t),
                       expiresAt := (case expiresAt_in of None \<Rightarrow> expiresAt r | Some d \<Rightarrow> Some d)\<rparr>"
  let ?g = "\<lambda>r. (id' r, content r, slug r, password r, isOneTimeAccess r, hasBeenAccessed r,
                   createdAt r, userId r)"
  have res: "res = fst (update e ctx id_in title_in expiresAt_in st)"
    and st': "st' = snd (update e ctx id_in title_in expiresAt_in st)"
    using assms(2) by simp_all
  have shape: "st' = st \<or> st' = st\<lparr>secrets := secretUpdate id_in ?data (dbNow e) (secrets st)\<rparr>"
    unfolding st' by (auto simp add: update_def Let_def split: option.splits)
  have fr: "map ?g (secretUpdate id_in ?data (dbNow e) (secrets st)) = map ?g (secrets st)"
    by (rule secretUpdate_frame) simp_all
  note oth = secretUpdate_others [of id_in ?data "dbNow e" "secrets st"]
  have c1: "findUniqueById (secrets st) id_in = None \<longrightarrow>
            res = Inl (TRPCError NOT_FOUND ''Secret not found'') \<and> st' = st"
    unfolding res st' using assms(1) by (simp add: update_def)
  have c2: "\<forall>secret. findUniqueById (secrets st) id_in = Some secret \<and>
              userId secret \<noteq> Some (user_id u) \<longrightarrow>
            res = Inl (TRPCError FORBIDDEN ''Not authorized to update this secret'') \<and> st' = st"
    unfolding res st' using assms(1) by (simp add: update_def)
  have c3: "\<forall>secret. findUniqueById (secrets st) id_in = Some secret \<and>
              userId secret = Some (user_id u) \<and> (title_in \<noteq> None \<or> expiresAt_in \<noteq> None) \<longrightarrow>
            res = Inr \<lparr>update_id = id' secret,
                       update_title = (case title_in of None \<Rightarrow> title secret | Some t \<Rightarrow> Some t),
                       update_expiresAt =
                         (case expiresAt_in of None \<Rightarrow> expiresAt secret | Some d \<Rightarrow> Some d),
                       update_updatedAt = dbNow e\<rparr> \<and>
            (\<forall>k < length (secrets st). id' (secrets st ! k) = id_in \<longrightarrow>
               secrets st' ! k =
                 (secrets st ! k)
                   \<lparr>title := (case title_in of None \<Rightarrow> title (secrets st ! k) | Some t \<Rightarrow> Some t),
                    expiresAt := (case expiresAt_in of None \<Rightarrow> expiresAt (secrets st ! k)
                                  | Some d \<Rightarrow> Some d),
                    updatedAt := dbNow e\<rparr>)"
  proof (intro allI impI, elim conjE)
    fix secret
    assume f: "findUniqueById (secrets st) id_in = Some secret"
      and o: "userId secret = Some (user_id u)"
      and d: "title_in \<noteq> None \<or> expiresAt_in \<noteq> None"
    from d have nd: "\<not> (title_in = None \<and> expiresAt_in = None)" by blast
    have r: "res = Inr \<lparr>update_id = id' secret,
                       update_title = (case title_in of None \<Rightarrow> title secret | Some t \<Rightarrow> Some t),
                       update_expiresAt =
                         (case expiresAt_in of None \<Rightarrow> expiresAt secret | Some d \<Rightarrow> Some d),
                       update_updatedAt = dbNow e\<rparr>"
      unfolding res using assms(1) f o nd by (auto simp add: update_def Let_def)
    have s: "secrets st' = secretUpdate id_in ?data (dbNow e) (secrets st)"
      unfolding st' using assms(1) f o nd by (auto simp add: update_def Let_def)
    have t: "\<forall>k < length (secrets st). id' (secrets st ! k) = id_in \<longrightarrow>
               secrets st' ! k =
                 (secrets st ! k)
                   \<lparr>title := (case title_in of None \<Rightarrow> title (secrets st ! k) | Some t \<Rightarrow> Some t),
                    expiresAt := (case expiresAt_in of None \<Rightarrow> expiresAt (secrets st ! k)
                                  | Some d \<Rightarrow> Some d),
                    updatedAt := dbNow e\<rparr>"
      unfolding s by (simp add: secretUpdate_target)
    from r t show "res = Inr \<lparr>update_id = id' secret,
                       update_title = (case title_in of None \<Rightarrow> title secret | Some t \<Rightarrow> Some t),
                       update_expiresAt =
                         (case expiresAt_in of None \<Rightarrow> expiresAt secret | Some d \<Rightarrow> Some d),
                       update_updatedAt = dbNow e\<rparr> \<and>
            (\<forall>k < length (secrets st). id' (secrets st ! k) = id_in \<longrightarrow>
               secrets st' ! k =
                 (secrets st ! k)
                   \<lparr>title := (case title_in of None \<Rightarrow> title (secrets st ! k) | Some t \<Rightarrow> Some t),
                    expiresAt := (case expiresAt_in of None \<Rightarrow> expiresAt (secrets st ! k)
                                  | Some d \<Rightarrow> Some d),
                    updatedAt := dbNow e\<rparr>)" ..
  qed
  have c4: "\<forall>secret. findUniqueById (secrets st) id_in = Some secret \<and>
              userId secret = Some (user_id u) \<and> title_in = None \<and> expiresAt_in = None \<longrightarrow>
            res = Inr \<lparr>update_id = id' secret, update_title = title secret,
                       update_expiresAt = expiresAt secret,
                       update_updatedAt = updatedAt secret\<rparr> \<and> st' = st"
    unfolding res st' using assms(1) by (simp add: update_def Let_def)
  have f1: "map ?g (secrets st') = map ?g (secrets st)"
    using shape fr by auto
  have f2: "length (secrets st') = length (secrets st)"
    using shape oth by auto
  have f3: "\<forall>k < length (secrets st). id' (secrets st ! k) \<noteq> id_in \<longrightarrow>
            secrets st' ! k = secrets st ! k"
    using shape oth by auto
  have f4: "accessLogs st' = accessLogs st" "users st' = users st"
    "secretCreateRateLimit st' = secretCreateRateLimit st"
    "secretAccessRateLimit st' = secretAccessRateLimit st"
    using shape by auto
  show ?thesis
    by (intro conjI) (fact c1 c2 c3 c4 f1 f2 f3 f4)+
qed

theorem update_frame_witness:
  "update exampleEnv aliceContext ''missing'' (Some ''router'') None exampleState =
     (Inl (TRPCError NOT_FOUND ''Secret not found''), exampleState) \<and>
   update exampleEnv
     (aliceContext\<lparr>user := Some \<lparr>user_id = ''bob'', user_email = ''bob@example.org''\<rparr>\<rparr>)
     ''cm0000'' (Some ''router'') None exampleState =
     (Inl (TRPCError FORBIDDEN ''Not authorized to update this secret''), exampleState) \<and>
   update exampleEnv aliceContext ''cm0000'' (Some ''router'') None exampleState =
     (Inr \<lparr>update_id = ''cm0000'', update_title = Some ''router'',
           update_expiresAt = Some 1000, update_updatedAt = 1000\<rparr>,
      exampleState\<lparr>secrets := [exampleSecret\<lparr>title := Some ''router'', updatedAt := 1000\<rparr>]\<rparr>) \<and>
   update exampleEnv aliceContext ''cm0000'' None None exampleState =
     (Inr \<lparr>update_id = ''cm0000'', update_title = Some ''wifi'',
           update_expiresAt = Some 1000, update_updatedAt = 10\<rparr>, exampleState)"
proof -
  let ?alice = "\<lparr>user_id = ''alice'', user_email = ''alice@example.org''\<rparr>"
  let ?bob = "\<lparr>user_id = ''bob'', user_email = ''bob@example.org''\<rparr>"
  have a: "update exampleEnv aliceContext ''missing'' (Some ''router'') None exampleState =
     (Inl (TRPCError NOT_FOUND ''Secret not found''), exampleState)"
    using update_frame [of aliceContext ?alice exampleEnv "''missing''" "Some ''router''" None
      exampleState
      "fst (update exampleEnv aliceContext ''missing'' (Some ''router'') None exampleState)"
      "snd (update exampleEnv aliceContext ''missing'' (Some ''router'') None exampleState)"]
    by (simp add: example_defs eval_defs)
  have b: "update exampleEnv (aliceContext\<lparr>user := Some ?bob\<rparr>)
     ''cm0000'' (Some ''router'') None exampleState =
     (Inl (TRPCError FORBIDDEN ''Not authorized to update this secret''), exampleState)"
    using update_frame [of "aliceContext\<lparr>user := Some ?bob\<rparr>" ?bob exampleEnv "''cm0000''"
      "Some ''router''" None exampleState
      "fst (update exampleEnv (aliceContext\<lparr>user := Some ?bob\<rparr>) ''cm0000'' (Some ''router'')
         None exampleState)"
      "snd (update exampleEnv (aliceContext\<lparr>user := Some ?bob\<rparr>) ''cm0000'' (Some ''router'')
         None exampleState)"]
    by (simp add: example_defs eval_defs)
  have c: "update exampleEnv aliceContext ''cm0000'' (Some ''router'') None exampleState =
     (Inr \<lparr>update_id = ''cm0000'', update_title = Some ''router'',
           update_expiresAt = Some 1000, update_updatedAt = 1000\<rparr>,
      exampleState\<lparr>secrets := [exampleSecret\<lparr>title := Some ''router'', updatedAt := 1000\<rparr>]\<rparr>)"
    using update_frame [of aliceContext ?alice exampleEnv "''cm0000''" "Some ''router''" None
      exampleState
      "fst (update exampleEnv aliceContext ''cm0000'' (Some ''router'') None exampleState)"
      "snd (update exampleEnv aliceContext ''cm0000'' (Some ''router'') None exampleState)"]
    by (simp add: example_defs eval_defs)
  have d: "update exampleEnv aliceContext ''cm0000'' None None exampleState =
     (Inr \<lparr>update_id = ''cm0000'', update_title = Some ''wifi'',
           update_expiresAt = Some 1000, update_updatedAt = 10\<rparr>, exampleState)"
    using update_frame [of aliceContext ?alice exampleEnv "''cm0000''" None None exampleState
      "fst (update exampleEnv aliceContext ''cm0000'' None None exampleState)"
      "snd (update exampleEnv aliceContext ''cm0000'' None None exampleState)"]
    by (simp add: example_defs eval_defs)
  from a b c d show ?thesis by blast
qed

section \<open>Round trip, and calls without a request\<close>

lemma find_slug_append:
  "s \<notin> set (map slug rows) \<Longrightarrow> slug row = s \<Longrightarrow> findUniqueBySlug (rows @ [row]) s = Some row"
  by (induction rows) (auto simp add: findUniqueBySlug_def)

text \<open>
  Claim C9, as amended. For every non-empty content \<open>X\<close>: a \<open>create\<close> with content \<open>X\<close>, no
  password, no expiration and \<open>isOneTimeAccess = false\<close> that the limiter admits and the
  constraints of the table accept (the id and the slug drawn are new, the owner, if any,
  exists) returns the slug drawn, and a \<open>getBySlug\<close> with that slug right after it, when
  the limiter admits it and the access log is written, returns content \<open>X\<close>, with any
  password input. What \<open>create\<close> returns is the same for every non-empty content and
  every password, so it exposes neither the content nor the password hash.
\<close>

theorem create_then_get:
  assumes "X \<noteq> []"
    and "\<not> truthy password_in"
    and "admitted e ctx (secretCreateRateLimit st)"
    and "cuid e \<notin> set (map id' (secrets st))"
    and "nanoid e \<notin> set (map slug (secrets st))"
    and "\<forall>u. user ctx = Some u \<longrightarrow> user_id u \<in> set (users st)"
    and "create e ctx title_in X password_in None False st = (res, st1)"
    and "admitted e2 ctx2 (secretAccessRateLimit st1)"
    and "accessLogError e2 = None"
  shows "res = Inr \<lparr>create_id = cuid e, create_slug = nanoid e, create_title = title_in,
                    create_expiresAt = None, create_isOneTimeAccess = False,
                    create_createdAt = dbNow e\<rparr> \<and>
         fst (getBySlug e2 ctx2 (nanoid e) p st1) =
           Inr \<lparr>get_id = cuid e, get_title = title_in, get_content = X,
                get_expiresAt = None, get_isOneTimeAccess = False,
                get_createdAt = dbNow e\<rparr> \<and>
         (\<forall>Y q x o1. Y \<noteq> [] \<longrightarrow>
            fst (create e ctx title_in Y q x o1 st) = fst (create e ctx title_in X password_in x o1 st))"
proof -
  let ?row = "\<lparr>id' = cuid e, title = title_in, content = X, slug = nanoid e,
                 password = None, expiresAt = None, isOneTimeAccess = False,
                 hasBeenAccessed = False, createdAt = dbNow e, updatedAt = dbNow e,
                 userId = map_option user_id (user ctx)\<rparr>"
  note C = create_admitted [OF assms(1) assms(3)]
  from assms(6) have own: "\<not> (user ctx \<noteq> None \<and> user_id (the (user ctx)) \<notin> set (users st))"
    by (cases "user ctx") auto
  from C [of title_in password_in None False] assms(2,4,5,7) own
  have res: "res = Inr \<lparr>create_id = cuid e, create_slug = nanoid e, create_title = title_in,
                    create_expiresAt = None, create_isOneTimeAccess = False,
                    create_createdAt = dbNow e\<rparr>"
    and sec: "secrets st1 = secrets st @ [?row]"
    by (auto simp add: Let_def)
  have found: "findUniqueBySlug (secrets st1) (nanoid e) = Some ?row"
    unfolding sec by (rule find_slug_append [OF assms(5)]) simp
  have get: "fst (getBySlug e2 ctx2 (nanoid e) p st1) =
           Inr \<lparr>get_id = cuid e, get_title = title_in, get_content = X,
                get_expiresAt = None, get_isOneTimeAccess = False,
                get_createdAt = dbNow e\<rparr>"
    using getBySlug_admitted [OF assms(8), of "nanoid e" p] found assms(9)
    by (simp add: expired_def truthy_def)
  have same: "fst (create e ctx title_in Y q x o1 st) =
      fst (create e ctx title_in X password_in x o1 st)" if "Y \<noteq> []" for Y q x o1
    using C [of title_in password_in x o1] create_admitted [OF that assms(3), of title_in q x o1]
    by (simp add: Let_def)
  from res get same show ?thesis by blast
qed

theorem create_then_get_witness:
  "fst (create exampleEnv exampleContext (Some ''note'') ''s3cr3t'' None None False exampleState) =
     Inr \<lparr>create_id = ''cm0001'', create_slug = ''V1StGXR8_Z5j'', create_title = Some ''note'',
          create_expiresAt = None, create_isOneTimeAccess = False, create_createdAt = 1000\<rparr> \<and>
   fst (getBySlug (exampleEnv\<lparr>newDate := 99999\<rparr>) exampleContext ''V1StGXR8_Z5j'' None
          (snd (create exampleEnv exampleContext (Some ''note'') ''s3cr3t'' None None False
                  exampleState))) =
     Inr \<lparr>get_id = ''cm0001'', get_title = Some ''note'', get_content = ''s3cr3t'',
          get_expiresAt = None, get_isOneTimeAccess = False, get_createdAt = 1000\<rparr>"
  using create_then_get [of "''s3cr3t''" None exampleEnv exampleContext exampleState "Some ''note''"
      "fst (create exampleEnv exampleContext (Some ''note'') ''s3cr3t'' None None False exampleState)"
      "snd (create exampleEnv exampleContext (Some ''note'') ''s3cr3t'' None None False exampleState)"
      "exampleEnv\<lparr>newDate := 99999\<rparr>" exampleContext None]
  by (simp add: example_defs eval_defs)

theorem create_rejects_empty_content:
  "create exampleEnv exampleContext None '''' None None False exampleState =
     (Inl (InputRejected ''Content is required''), exampleState)"
  by (simp add: create_def)

text \<open>
  Claim C10. Without a request in the context, \<open>create\<close> and \<open>getBySlug\<close> never ask their
  limiter: whatever the limiter holds, it is left as it was and the call does not throw
  \<open>TOO_MANY_REQUESTS\<close>, and the call returns what it returns for a context with a request
  (and the same user) that the limiter admits. With a request, the limiter is asked
  once, for the identifier of the client, and the call throws \<open>TOO_MANY_REQUESTS\<close>
  exactly when the limiter does not allow it.
\<close>

theorem no_request_no_rate_limit:
  assumes "req ctx = None"
  shows "secretCreateRateLimit (snd (create e ctx t c p x o1 st)) = secretCreateRateLimit st \<and>
         (\<forall>m. fst (create e ctx t c p x o1 st) \<noteq> Inl (TRPCError TOO_MANY_REQUESTS m)) \<and>
         secretAccessRateLimit (snd (getBySlug e ctx s q st)) = secretAccessRateLimit st \<and>
         (\<forall>m. fst (getBySlug e ctx s q st) \<noteq> Inl (TRPCError TOO_MANY_REQUESTS m)) \<and>
         (\<forall>r. admitted e (ctx\<lparr>req := Some r\<rparr>) (secretCreateRateLimit st) \<longrightarrow>
            fst (create e ctx t c p x o1 st) = fst (create e (ctx\<lparr>req := Some r\<rparr>) t c p x o1 st) \<and>
            secrets (snd (create e ctx t c p x o1 st)) =
              secrets (snd (create e (ctx\<lparr>req := Some r\<rparr>) t c p x o1 st))) \<and>
         (\<forall>r. admitted e (ctx\<lparr>req := Some r\<rparr>) (secretAccessRateLimit st) \<longrightarrow>
            fst (getBySlug e ctx s q st) = fst (getBySlug e (ctx\<lparr>req := Some r\<rparr>) s q st) \<and>
            secrets (snd (getBySlug e ctx s q st)) =
              secrets (snd (getBySlug e (ctx\<lparr>req := Some r\<rparr>) s q st))) \<and>
         (\<forall>r. c \<noteq> [] \<longrightarrow>
            secretCreateRateLimit (snd (create e (ctx\<lparr>req := Some r\<rparr>) t c p x o1 st)) =
              snd (check (dateNow e) (getClientIdentifier r) (secretCreateRateLimit st)) \<and>
            ((\<exists>m. fst (create e (ctx\<lparr>req := Some r\<rparr>) t c p x o1 st) =
                    Inl (TRPCError TOO_MANY_REQUESTS m)) \<longleftrightarrow>
             \<not> allowed (fst (check (dateNow e) (getClientIdentifier r) (secretCreateRateLimit st))))) \<and>
         (\<forall>r. secretAccessRateLimit (snd (getBySlug e (ctx\<lparr>req := Some r\<rparr>) s q st)) =
              snd (check (dateNow e) (getClientIdentifier r) (secretAccessRateLimit st)) \<and>
            ((\<exists>m. fst (getBySlug e (ctx\<lparr>req := Some r\<rparr>) s q st) =
                    Inl (TRPCError TOO_MANY_REQUESTS m)) \<longleftrightarrow>
             \<not> allowed (fst (check (dateNow e) (getClientIdentifier r) (secretAccessRateLimit st)))))"
proof -
  have g: "rateLimitGuard e ctx rl = (False, rl)" for rl
    using assms by (simp add: rateLimitGuard_def)
  have g': "rateLimitGuard e (ctx\<lparr>req := Some r\<rparr>) rl =
      (\<not> allowed (fst (check (dateNow e) (getClientIdentifier r) rl)),
       snd (check (dateNow e) (getClientIdentifier r) rl))" for r rl
    by (simp add: rateLimitGuard_def split_beta Let_def)
  have c1: "secretCreateRateLimit (snd (create e ctx t c p x o1 st)) = secretCreateRateLimit st"
    by (auto simp add: create_def g secretCreate_def Let_def split: sum.splits)
  have c2: "\<forall>m. fst (create e ctx t c p x o1 st) \<noteq> Inl (TRPCError TOO_MANY_REQUESTS m)"
    by (auto simp add: create_def g secretCreate_def Let_def split: sum.splits)
  have g1: "secretAccessRateLimit (snd (getBySlug e ctx s q st)) = secretAccessRateLimit st"
    by (auto simp add: getBySlug_def g Let_def split: option.splits)
  have g2: "\<forall>m. fst (getBySlug e ctx s q st) \<noteq> Inl (TRPCError TOO_MANY_REQUESTS m)"
    by (auto simp add: getBySlug_def g Let_def split: option.splits)
  have c3: "\<forall>r. admitted e (ctx\<lparr>req := Some r\<rparr>) (secretCreateRateLimit st) \<longrightarrow>
            fst (create e ctx t c p x o1 st) = fst (create e (ctx\<lparr>req := Some r\<rparr>) t c p x o1 st) \<and>
            secrets (snd (create e ctx t c p x o1 st)) =
              secrets (snd (create e (ctx\<lparr>req := Some r\<rparr>) t c p x o1 st))"
    by (auto simp add: create_def admitted_def g g' secretCreate_def Let_def split: sum.splits)
  have g3: "\<forall>r. admitted e (ctx\<lparr>req := Some r\<rparr>) (secretAccessRateLimit st) \<longrightarrow>
            fst (getBySlug e ctx s q st) = fst (getBySlug e (ctx\<lparr>req := Some r\<rparr>) s q st) \<and>
            secrets (snd (getBySlug e ctx s q st)) =
              secrets (snd (getBySlug e (ctx\<lparr>req := Some r\<rparr>) s q st))"
    by (auto simp add: getBySlug_def admitted_def g g' Let_def split: option.splits)
  have c4: "\<forall>r. c \<noteq> [] \<longrightarrow>
            secretCreateRateLimit (snd (create e (ctx\<lparr>req := Some r\<rparr>) t c p x o1 st)) =
              snd (check (dateNow e) (getClientIdentifier r) (secretCreateRateLimit st)) \<and>
            ((\<exists>m. fst (create e (ctx\<lparr>req := Some r\<rparr>) t c p x o1 st) =
                    Inl (TRPCError TOO_MANY_REQUESTS m)) \<longleftrightarrow>
             \<not> allowed (fst (check (dateNow e) (getClientIdentifier r) (secretCreateRateLimit st))))"
    by (auto simp add: create_def g' secretCreate_def Let_def split: sum.splits)
  have g4: "\<forall>r. secretAccessRateLimit (snd (getBySlug e (ctx\<lparr>req := Some r\<rparr>) s q st)) =
              snd (check (dateNow e) (getClientIdentifier r) (secretAccessRateLimit st)) \<and>
            ((\<exists>m. fst (getBySlug e (ctx\<lparr>req := Some r\<rparr>) s q st) =
                    Inl (TRPCError TOO_MANY_REQUESTS m)) \<longleftrightarrow>
             \<not> allowed (fst (check (dateNow e) (getClientIdentifier r) (secretAccessRateLimit st))))"
    by (auto simp add: getBySlug_def g' Let_def split: option.splits)
  from c1 c2 g1 g2 c3 g3 c4 g4 show ?thesis by blast
qed


theorem no_request_no_rate_limit_witness:
  "req noRequestContext = None \<and>
   fst (getBySlug exampleEnv noRequestContext ''Uakgb_J5m9g-'' None exhaustedState) =
     Inr \<lparr>get_id = ''cm0000'', get_title = Some ''wifi'', get_content = ''hunter2'',
          get_expiresAt = Some 1000, get_isOneTimeAccess = False, get_createdAt = 10\<rparr> \<and>
   secretAccessRateLimit (snd (getBySlug exampleEnv noRequestContext ''Uakgb_J5m9g-'' None
      exhaustedState)) = secretAccessRateLimit exhaustedState \<and>
   fst (getBySlug exampleEnv (noRequestContext\<lparr>req := Some exampleRequest\<rparr>) ''Uakgb_J5m9g-'' None
      exhaustedState) =
     Inl (TRPCError TOO_MANY_REQUESTS ''Too many secret access attempts. Please try again later.'') \<and>
   fst (create exampleEnv noRequestContext None ''s3cr3t'' None None False exhaustedState) =
     Inr \<lparr>create_id = ''cm0001'', create_slug = ''V1StGXR8_Z5j'', create_title = None,
          create_expiresAt = None, create_isOneTimeAccess = False, create_createdAt = 1000\<rparr> \<and>
   secretCreateRateLimit (snd (create exampleEnv noRequestContext None ''s3cr3t'' None None False
      exhaustedState)) = secretCreateRateLimit exhaustedState \<and>
   fst (create exampleEnv (noRequestContext\<lparr>req := Some exampleRequest\<rparr>) None ''s3cr3t'' None None
      False exhaustedState) =
     Inl (TRPCError TOO_MANY_REQUESTS ''Too many secrets created. Please try again later.'')"
  using no_request_no_rate_limit [of noRequestContext exampleEnv None "''s3cr3t''" None None False
      exhaustedState "''Uakgb_J5m9g-''" None]
  by (simp add: example_defs exhaustedState_def noRequestContext_def eval_defs)

section \<open>One-time access\<close>

subsection \<open>The phases make up the procedure\<close>

lemma getBySlugRead_found:
  "getBySlugRead e ctx s p st = (Inr secret, st1) \<Longrightarrow>
   findUniqueBySlug (secrets st) s = Some secret \<and>
   st1 = st\<lparr>secretAccessRateLimit := snd (rateLimitGuard e ctx (secretAccessRateLimit st))\<rparr>"
  by (auto simp add: getBySlugRead_def split_beta Let_def split: option.splits if_splits)

lemma find_slug_Some:
  "findUniqueBySlug rows s = Some r \<Longrightarrow> r \<in> set rows \<and> slug r = s"
  by (induction rows) (auto simp add: findUniqueBySlug_def split: if_splits)

text \<open>Run with nothing in between, the three phases are \<open>getBySlug\<close>.\<close>

lemma getBySlug_phases:
  "getBySlug e ctx s p st =
     (case getBySlugRead e ctx s p st of
        (Inl err, st1) \<Rightarrow> (Inl err, st1)
      | (Inr secret, st1) \<Rightarrow> getBySlugWrite e ctx secret st1)"
proof (cases "findUniqueBySlug (secrets st) s")
  case None
  then show ?thesis
    by (simp add: getBySlug_def getBySlugRead_def split_beta Let_def)
next
  case (Some secret)
  from find_slug_Some [OF Some] have "id' secret \<in> set (map id' (secrets st))" by auto
  with Some show ?thesis
    by (simp add: getBySlug_def getBySlugRead_def getBySlugWrite_def getBySlugLog_def
        getBySlugMark_def split_beta Let_def split: option.splits)
qed

text \<open>A \<open>getBySlug\<close> that fails has written nothing but the count of the limiter.\<close>

lemma getBySlug_failure_writes_nothing:
  assumes "fst (getBySlug e ctx s p st) = Inl err"
  shows "snd (getBySlug e ctx s p st) =
     st\<lparr>secretAccessRateLimit := snd (rateLimitGuard e ctx (secretAccessRateLimit st))\<rparr>"
  using assms
  by (auto simp add: getBySlug_def split_beta Let_def split: option.splits if_splits)


subsection \<open>Two calls that overlap\<close>

lemma getBySlugRead_passes:
  assumes "findUniqueBySlug (secrets st) s = Some secret"
    and "admitted e ctx (secretAccessRateLimit st)"
    and "\<not> expired secret (newDate e)"
    and "\<not> (isOneTimeAccess secret \<and> hasBeenAccessed secret)"
    and "passwordAccepted e secret p"
  shows "getBySlugRead e ctx s p st =
     (Inr secret,
      st\<lparr>secretAccessRateLimit := snd (rateLimitGuard e ctx (secretAccessRateLimit st))\<rparr>)"
  using assms
  by (auto simp add: getBySlugRead_def admitted_def passwordAccepted_def split_beta Let_def)

lemma getBySlugWrite_present:
  assumes "id' secret \<in> set (map id' (secrets st))" and "accessLogError e = None"
  shows "fst (getBySlugWrite e ctx secret st) =
           Inr \<lparr>get_id = id' secret, get_title = title secret, get_content = content secret,
                get_expiresAt = expiresAt secret, get_isOneTimeAccess = isOneTimeAccess secret,
                get_createdAt = createdAt secret\<rparr>"
    and "map id' (secrets (snd (getBySlugWrite e ctx secret st))) = map id' (secrets st)"
    and "length (accessLogs (snd (getBySlugWrite e ctx secret st))) = Suc (length (accessLogs st))"
  using assms
  by (auto simp add: getBySlugWrite_def getBySlugLog_def getBySlugMark_def secretUpdate_def
      Let_def)

text \<open>
  Both calls have read the row before either has marked it: both pass the check of
  \<open>hasBeenAccessed\<close> on their own copy, both write a log row and both return the content.
\<close>

lemma overlapping_calls_both_disclose:
  assumes found: "findUniqueBySlug (secrets st) s = Some secret"
    and once: "isOneTimeAccess secret" "\<not> hasBeenAccessed secret"
    and admA: "admitted eA ctxA (secretAccessRateLimit st)"
    and admB: "admitted eB ctxB (snd (rateLimitGuard eA ctxA (secretAccessRateLimit st)))"
    and live: "\<not> expired secret (newDate eA)" "\<not> expired secret (newDate eB)"
    and pw: "passwordAccepted eA secret pA" "passwordAccepted eB secret pB"
    and log: "accessLogError eA = None" "accessLogError eB = None"
    and run: "overlappingGetBySlug eA ctxA pA eB ctxB pB s st = (resultA, resultB, st')"
  shows "resultA = Inr \<lparr>get_id = id' secret, get_title = title secret,
                        get_content = content secret, get_expiresAt = expiresAt secret,
                        get_isOneTimeAccess = True, get_createdAt = createdAt secret\<rparr>"
    and "resultB = resultA"
    and "length (accessLogs st') = length (accessLogs st) + 2"
proof -
  let ?st1 = "st\<lparr>secretAccessRateLimit := snd (rateLimitGuard eA ctxA (secretAccessRateLimit st))\<rparr>"
  let ?st2 = "?st1\<lparr>secretAccessRateLimit :=
                 snd (rateLimitGuard eB ctxB (secretAccessRateLimit ?st1))\<rparr>"
  have nc: "\<not> (isOneTimeAccess secret \<and> hasBeenAccessed secret)" using once by simp
  have rA: "getBySlugRead eA ctxA s pA st = (Inr secret, ?st1)"
    by (rule getBySlugRead_passes [OF found admA live(1) nc pw(1)])
  have found1: "findUniqueBySlug (secrets ?st1) s = Some secret" using found by simp
  have admB': "admitted eB ctxB (secretAccessRateLimit ?st1)" using admB by simp
  have rB: "getBySlugRead eB ctxB s pB ?st1 = (Inr secret, ?st2)"
    by (rule getBySlugRead_passes [OF found1 admB' live(2) nc pw(2)])
  from find_slug_Some [OF found] have mem2: "id' secret \<in> set (map id' (secrets ?st2))" by auto
  note WA = getBySlugWrite_present [OF mem2 log(1), of ctxA]
  let ?st3 = "snd (getBySlugWrite eA ctxA secret ?st2)"
  have mem3: "id' secret \<in> set (map id' (secrets ?st3))" using WA(2) mem2 by simp
  note WB = getBySlugWrite_present [OF mem3 log(2), of ctxB]
  have eq: "overlappingGetBySlug eA ctxA pA eB ctxB pB s st =
      (fst (getBySlugWrite eA ctxA secret ?st2), fst (getBySlugWrite eB ctxB secret ?st3),
       snd (getBySlugWrite eB ctxB secret ?st3))"
    by (simp add: overlappingGetBySlug_def rA rB split_beta Let_def)
  from run have "fst (overlappingGetBySlug eA ctxA pA eB ctxB pB s st) = resultA"
    and "fst (snd (overlappingGetBySlug eA ctxA pA eB ctxB pB s st)) = resultB"
    and "snd (snd (overlappingGetBySlug eA ctxA pA eB ctxB pB s st)) = st'"
    by simp_all
  then have A: "resultA = fst (getBySlugWrite eA ctxA secret ?st2)"
    and B: "resultB = fst (getBySlugWrite eB ctxB secret ?st3)"
    and S: "st' = snd (getBySlugWrite eB ctxB secret ?st3)"
    unfolding eq fst_conv snd_conv by auto
  show "resultA = Inr \<lparr>get_id = id' secret, get_title = title secret,
                        get_content = content secret, get_expiresAt = expiresAt secret,
                        get_isOneTimeAccess = True, get_createdAt = createdAt secret\<rparr>"
    using A WA(1) once by simp
  show "resultB = resultA" using A B WA(1) WB(1) by simp
  show "length (accessLogs st') = length (accessLogs st) + 2"
    using S WA(3) WB(3) by simp
qed

lemmas phase_defs =
  getBySlugRead_def getBySlugLog_def getBySlugMark_def getBySlugWrite_def
  overlappingGetBySlug_def oneTimeCreated_def

text \<open>
  Claim C1. A one-time secret is to be disclosed once: the first \<open>getBySlug\<close> returns the
  content and every later one throws \<open>NOT_FOUND\<close>. The code keeps to this when a call
  ends before the next starts, and breaks it when two calls overlap. Here a one-time
  secret with a password is created; a call with a wrong password is refused and leaves
  the row as it is; two calls with the right password, one after the other, give the
  content and then \<open>NOT_FOUND\<close>; the same two calls overlapping (both read the row before
  either marks it) both return the content, and two rows are written to the access log.
\<close>

theorem one_time_secret_disclosed_twice:
  "fst (create exampleEnv exampleContext (Some ''wifi'') ''hunter2'' (Some ''pw'') None True
          initialState) =
     Inr \<lparr>create_id = ''cm0001'', create_slug = ''V1StGXR8_Z5j'', create_title = Some ''wifi'',
          create_expiresAt = None, create_isOneTimeAccess = True, create_createdAt = 1000\<rparr> \<and>
   fst (getBySlug exampleEnv exampleContext ''V1StGXR8_Z5j'' (Some ''guess'') oneTimeCreated) =
     Inl (TRPCError UNAUTHORIZED ''Invalid password'') \<and>
   secrets (snd (getBySlug exampleEnv exampleContext ''V1StGXR8_Z5j'' (Some ''guess'')
     oneTimeCreated)) = secrets oneTimeCreated \<and>
   fst (getBySlug secondEnv exampleContext ''V1StGXR8_Z5j'' (Some ''pw'') oneTimeCreated) =
     Inr \<lparr>get_id = ''cm0001'', get_title = Some ''wifi'', get_content = ''hunter2'',
          get_expiresAt = None, get_isOneTimeAccess = True, get_createdAt = 1000\<rparr> \<and>
   fst (getBySlug thirdEnv exampleContext ''V1StGXR8_Z5j'' (Some ''pw'')
          (snd (getBySlug secondEnv exampleContext ''V1StGXR8_Z5j'' (Some ''pw'') oneTimeCreated))) =
     Inl (TRPCError NOT_FOUND ''Secret has already been accessed'') \<and>
   fst (overlappingGetBySlug secondEnv exampleContext (Some ''pw'') thirdEnv exampleContext
          (Some ''pw'') ''V1StGXR8_Z5j'' oneTimeCreated) =
     Inr \<lparr>get_id = ''cm0001'', get_title = Some ''wifi'', get_content = ''hunter2'',
          get_expiresAt = None, get_isOneTimeAccess = True, get_createdAt = 1000\<rparr> \<and>
   fst (snd (overlappingGetBySlug secondEnv exampleContext (Some ''pw'') thirdEnv exampleContext
          (Some ''pw'') ''V1StGXR8_Z5j'' oneTimeCreated)) =
     Inr \<lparr>get_id = ''cm0001'', get_title = Some ''wifi'', get_content = ''hunter2'',
          get_expiresAt = None, get_isOneTimeAccess = True, get_createdAt = 1000\<rparr> \<and>
   map secretId (accessLogs (snd (snd (overlappingGetBySlug secondEnv exampleContext (Some ''pw'')
          thirdEnv exampleContext (Some ''pw'') ''V1StGXR8_Z5j'' oneTimeCreated)))) =
     [''cm0001'', ''cm0001'']"
  by (simp add: example_defs eval_defs phase_defs)


subsection \<open>What holds however calls overlap\<close>

lemma getBySlug_secrets:
  "secrets (snd (getBySlug e ctx s p st)) = secrets st \<or>
   (\<exists>i. secrets (snd (getBySlug e ctx s p st)) =
      secretUpdate i (\<lambda>r. r\<lparr>hasBeenAccessed := True\<rparr>) (dbNow e) (secrets st))"
  by (auto simp add: getBySlug_def split_beta Let_def split: option.splits)

lemma create_secrets:
  "secrets (snd (create e ctx t c p x o1 st)) = secrets st \<or>
   (\<exists>row. secrets (snd (create e ctx t c p x o1 st)) = secrets st @ [row] \<and>
      slug row = nanoid e \<and> id' row = cuid e \<and> \<not> hasBeenAccessed row \<and>
      cuid e \<notin> set (map id' (secrets st)) \<and> nanoid e \<notin> set (map slug (secrets st))
      \<and> content row = c)"
  by (auto simp add: create_def secretCreate_def split_beta Let_def split: sum.splits)

lemma delete_secrets:
  "secrets (snd (delete ctx i st)) = secrets st \<or>
   secrets (snd (delete ctx i st)) = filter (\<lambda>r. id' r \<noteq> i) (secrets st)"
  by (auto simp add: delete_def secretDelete_def split: option.splits)

lemma consumed_update_flag:
  "consumedOrAbsent s rows \<Longrightarrow>
   consumedOrAbsent s (secretUpdate i (\<lambda>r. r\<lparr>hasBeenAccessed := True\<rparr>) now rows)"
  by (induction rows) (auto simp add: consumedOrAbsent_def secretUpdate_def)

lemma consumed_update_data:
  "consumedOrAbsent s rows \<Longrightarrow>
   consumedOrAbsent s (secretUpdate i (\<lambda>r. r\<lparr>title := f r, expiresAt := g r\<rparr>) now rows)"
  by (induction rows) (auto simp add: consumedOrAbsent_def secretUpdate_def)

lemma consumed_filter:
  "consumedOrAbsent s rows \<Longrightarrow> consumedOrAbsent s (filter P rows)"
  by (induction rows) (auto simp add: consumedOrAbsent_def)

lemma find_consumed:
  "consumedOrAbsent s rows \<Longrightarrow> findUniqueBySlug rows s = Some r \<Longrightarrow>
   isOneTimeAccess r \<and> hasBeenAccessed r"
  by (induction rows) (auto simp add: consumedOrAbsent_def findUniqueBySlug_def split: if_splits)

lemma consumed_after_flag:
  assumes d: "distinct (map slug rows)" and r: "r \<in> set rows" and o: "isOneTimeAccess r"
  shows "consumedOrAbsent (slug r)
     (secretUpdate (id' r) (\<lambda>x. x\<lparr>hasBeenAccessed := True\<rparr>) now rows)"
proof -
  from d have inj: "inj_on slug (set rows)" by (simp add: distinct_map)
  have only: "x = r" if "x \<in> set rows" and "slug x = slug r" for x
    using inj r that by (auto dest: inj_onD)
  show ?thesis
    using o by (auto simp add: consumedOrAbsent_def secretUpdate_def list_all_iff dest: only)
qed

lemma secretUpdate_ids:
  "(\<And>r. id' (f r) = id' r) \<Longrightarrow> map id' (secretUpdate i f now rows) = map id' rows"
  by (induction rows) (simp_all add: secretUpdate_def)

lemma secretUpdate_slugs:
  "(\<And>r. slug (f r) = slug r) \<Longrightarrow> map slug (secretUpdate i f now rows) = map slug rows"
  by (induction rows) (simp_all add: secretUpdate_def)

lemma same_id:
  "distinct (map id' rows) \<Longrightarrow> x \<in> set rows \<Longrightarrow> y \<in> set rows \<Longrightarrow> id' y = id' x \<Longrightarrow> y = x"
  by (auto simp add: distinct_map dest: inj_onD)

lemma flag_update:
  assumes d: "distinct (map id' rows)" and x: "x \<in> set rows" "hasBeenAccessed x"
    and y: "y \<in> set (secretUpdate i f now rows)" "id' y = id' x"
    and keep: "\<And>r. hasBeenAccessed r \<Longrightarrow> hasBeenAccessed (f r)"
    and ids: "\<And>r. id' (f r) = id' r"
  shows "hasBeenAccessed y"
proof -
  from y(1) obtain z where z: "z \<in> set rows"
    and yz: "y = (if id' z = i then (f z)\<lparr>updatedAt := now\<rparr> else z)"
    by (auto simp add: secretUpdate_def)
  from yz ids have "id' y = id' z" by simp
  with y(2) same_id [OF d x(1) z] have "z = x" by simp
  with yz x(2) keep show ?thesis by simp
qed

lemma find_after_flag:
  assumes "findUniqueBySlug rows s = Some secret"
  shows "findUniqueBySlug (secretUpdate (id' secret) (\<lambda>x. x\<lparr>hasBeenAccessed := True\<rparr>) now rows) s
     = Some (secret\<lparr>hasBeenAccessed := True, updatedAt := now\<rparr>)"
  using assms
  by (induction rows) (auto simp add: findUniqueBySlug_def secretUpdate_def split: if_splits)

lemma wellFormed_access: "wellFormed st \<Longrightarrow> wellFormed (access a st)"
proof (cases a)
  case (Insert row)
  then show "wellFormed st \<Longrightarrow> wellFormed (access a st)"
    by (auto simp add: wellFormed_def secretCreate_def split: sum.splits if_splits)
next
  case (SetData i t x now)
  then show "wellFormed st \<Longrightarrow> wellFormed (access a st)"
    by (auto simp add: wellFormed_def secretUpdate_ids secretUpdate_slugs)
qed (auto simp add: wellFormed_def secretUpdate_ids secretUpdate_slugs secretDelete_def
       distinct_map_filter)

lemma wellFormed_accesses: "wellFormed st \<Longrightarrow> wellFormed (accesses as st)"
  by (induction as arbitrary: st) (simp_all add: wellFormed_access)

lemma wellFormed_initialState: "wellFormed initialState"
  by (simp add: wellFormed_def initialState_def)

text \<open>No access to the database takes \<open>hasBeenAccessed\<close> of a stored row from true to false.\<close>

lemma flag_access:
  assumes wf: "wellFormed st" and x: "x \<in> set (secrets st)" "hasBeenAccessed x"
    and y: "y \<in> set (secrets (access a st))" "id' y = id' x"
  shows "hasBeenAccessed y"
proof -
  from wf have d: "distinct (map id' (secrets st))" by (simp add: wellFormed_def)
  have old: "hasBeenAccessed y" if "y \<in> set (secrets st)"
    using same_id [OF d x(1) that y(2)] x(2) by simp
  show ?thesis
  proof (cases a)
    case (Insert row)
    with y x(1) old show ?thesis
      by (auto simp add: secretCreate_def split: sum.splits if_splits)
  next
    case (MarkAccessed i now)
    with y flag_update [OF d x, of y i "\<lambda>r. r\<lparr>hasBeenAccessed := True\<rparr>" now]
    show ?thesis by auto
  next
    case (SetData i t x' now)
    with y old flag_update [OF d x, of y i _ now]
    show ?thesis by (auto split: if_splits)
  next
    case (Remove i)
    with y old show ?thesis by (auto simp add: secretDelete_def)
  qed (use y old in auto)
qed

text \<open>Once every row of a slug is consumed, it stays so until a row of that slug is
  inserted.\<close>

lemma consumed_access:
  assumes "consumedOrAbsent s (secrets st)" and "\<not> insertsSlug s a"
  shows "consumedOrAbsent s (secrets (access a st))"
proof (cases a)
  case (Insert row)
  with assms show ?thesis
    by (auto simp add: consumedOrAbsent_def secretCreate_def split: sum.splits if_splits)
next
  case (MarkAccessed i now)
  with assms show ?thesis by (simp add: consumed_update_flag)
next
  case (SetData i t x now)
  with assms show ?thesis by (simp add: consumed_update_data)
next
  case (Remove i)
  with assms show ?thesis by (simp add: secretDelete_def consumed_filter)
qed (use assms in auto)

lemma consumed_accesses:
  "consumedOrAbsent s (secrets st) \<Longrightarrow> \<forall>a \<in> set as. \<not> insertsSlug s a \<Longrightarrow>
   consumedOrAbsent s (secrets (accesses as st))"
  by (induction as arbitrary: st) (simp_all add: consumed_access)

text \<open>A call that reads the row after the mark has been written is refused.\<close>

lemma read_after_mark:
  assumes "consumedOrAbsent s (secrets st)" and "admitted e ctx (secretAccessRateLimit st)"
  shows "fst (getBySlugRead e ctx s p st) \<in>
           {Inl (TRPCError NOT_FOUND ''Secret not found''),
            Inl (TRPCError NOT_FOUND ''Secret has expired''),
            Inl (TRPCError NOT_FOUND ''Secret has already been accessed'')}"
    and "fst (getBySlug e ctx s p st) \<in>
           {Inl (TRPCError NOT_FOUND ''Secret not found''),
            Inl (TRPCError NOT_FOUND ''Secret has expired''),
            Inl (TRPCError NOT_FOUND ''Secret has already been accessed'')}"
proof -
  show "fst (getBySlugRead e ctx s p st) \<in>
           {Inl (TRPCError NOT_FOUND ''Secret not found''),
            Inl (TRPCError NOT_FOUND ''Secret has expired''),
            Inl (TRPCError NOT_FOUND ''Secret has already been accessed'')}"
  proof (cases "findUniqueBySlug (secrets st) s")
    case None
    with assms(2) show ?thesis
      by (simp add: getBySlugRead_def admitted_def split_beta Let_def)
  next
    case (Some r)
    from find_consumed [OF assms(1) Some] Some assms(2) show ?thesis
      by (simp add: getBySlugRead_def admitted_def split_beta Let_def)
  qed
  then show "fst (getBySlug e ctx s p st) \<in>
           {Inl (TRPCError NOT_FOUND ''Secret not found''),
            Inl (TRPCError NOT_FOUND ''Secret has expired''),
            Inl (TRPCError NOT_FOUND ''Secret has already been accessed'')}"
    by (auto simp add: getBySlug_phases split: prod.splits sum.splits)
qed


subsection \<open>Every call is a sequence of accesses\<close>

text \<open>The count of a guard, as accesses.\<close>

lemma guard_create_access:
  "st\<lparr>secretCreateRateLimit := snd (rateLimitGuard e ctx (secretCreateRateLimit st))\<rparr> =
     accesses (case req ctx of None \<Rightarrow> []
               | Some r \<Rightarrow> [CountCreate (dateNow e) (getClientIdentifier r)]) st"
  by (simp add: rateLimitGuard_def split_beta Let_def split: option.splits)

lemma guard_access_access:
  "st\<lparr>secretAccessRateLimit := snd (rateLimitGuard e ctx (secretAccessRateLimit st))\<rparr> =
     accesses (case req ctx of None \<Rightarrow> []
               | Some r \<Rightarrow> [CountAccess (dateNow e) (getClientIdentifier r)]) st"
  by (simp add: rateLimitGuard_def split_beta Let_def split: option.splits)

lemma accesses_append: "accesses (as @ bs) st = accesses bs (accesses as st)"
  by (induction as arbitrary: st) simp_all

lemma create_accesses:
  "\<exists>as. snd (create e ctx t c p x o1 st) = accesses as st \<and>
        (\<forall>a \<in> set as. \<forall>s. insertsSlug s a \<longrightarrow> s = nanoid e)"
proof (cases "c = []")
  case True
  then have "snd (create e ctx t c p x o1 st) = accesses [] st" by (simp add: create_def)
  then show ?thesis by fastforce
next
  case False
  let ?g = "case req ctx of None \<Rightarrow> []
            | Some r \<Rightarrow> [CountCreate (dateNow e) (getClientIdentifier r)]"
  let ?row = "\<lparr>id' = cuid e, title = t, content = c, slug = nanoid e,
               password = (if truthy p then Some (bcryptHash e (the p)) else None),
               expiresAt = x, isOneTimeAccess = o1, hasBeenAccessed = False,
               createdAt = dbNow e, updatedAt = dbNow e,
               userId = map_option user_id (user ctx)\<rparr>"
  have g: "\<forall>a \<in> set ?g. \<forall>s. \<not> insertsSlug s a" by (auto split: option.splits)
  show ?thesis
  proof (cases "fst (rateLimitGuard e ctx (secretCreateRateLimit st))")
    case True
    with False have "snd (create e ctx t c p x o1 st) = accesses ?g st"
      by (simp add: create_def split_beta Let_def guard_create_access)
    with g show ?thesis by blast
  next
    case notLimited: False
    with False have "snd (create e ctx t c p x o1 st) = accesses (?g @ [Insert ?row]) st"
      by (simp add: create_def split_beta Let_def accesses_append
          guard_create_access [symmetric] split: sum.splits)
    moreover have "\<forall>a \<in> set (?g @ [Insert ?row]). \<forall>s. insertsSlug s a \<longrightarrow> s = nanoid e"
      using g by auto
    ultimately show ?thesis by blast
  qed
qed

lemma getBySlugRead_accesses:
  "\<exists>as. snd (getBySlugRead e ctx s p st) = accesses as st \<and> (\<forall>a \<in> set as. \<forall>s'. \<not> insertsSlug s' a)"
proof -
  let ?g = "case req ctx of None \<Rightarrow> []
            | Some r \<Rightarrow> [CountAccess (dateNow e) (getClientIdentifier r)]"
  have "snd (getBySlugRead e ctx s p st) = accesses ?g st"
    by (simp add: getBySlugRead_def split_beta Let_def guard_access_access split: option.splits)
  moreover have "\<forall>a \<in> set ?g. \<forall>s'. \<not> insertsSlug s' a" by (auto split: option.splits)
  ultimately show ?thesis by blast
qed

lemma getBySlugLog_accesses:
  "getBySlugLog e ctx secret st = Inr st' \<Longrightarrow> \<exists>entry. st' = accesses [LogAccess entry] st"
  by (auto simp add: getBySlugLog_def Let_def split: option.splits if_splits)

lemma getBySlugMark_accesses:
  "snd (getBySlugMark e secret st) = accesses [] st \<or>
   snd (getBySlugMark e secret st) = accesses [MarkAccessed (id' secret) (dbNow e)] st"
  by (simp add: getBySlugMark_def)

lemma getBySlugWrite_accesses:
  "\<exists>as. snd (getBySlugWrite e ctx secret st) = accesses as st \<and>
        (\<forall>a \<in> set as. \<forall>s'. \<not> insertsSlug s' a)"
proof (cases "getBySlugLog e ctx secret st")
  case (Inl err)
  then have "snd (getBySlugWrite e ctx secret st) = accesses [] st"
    by (simp add: getBySlugWrite_def)
  then show ?thesis by fastforce
next
  case (Inr st2)
  from getBySlugLog_accesses [OF Inr] obtain entry where st2: "st2 = accesses [LogAccess entry] st"
    by blast
  from getBySlugMark_accesses [of e secret st2] Inr st2
  have "snd (getBySlugWrite e ctx secret st) = accesses [LogAccess entry] st \<or>
        snd (getBySlugWrite e ctx secret st) =
          accesses [LogAccess entry, MarkAccessed (id' secret) (dbNow e)] st"
    by (auto simp add: getBySlugWrite_def)
  then show ?thesis by fastforce
qed

lemma getBySlug_accesses:
  "\<exists>as. snd (getBySlug e ctx s p st) = accesses as st \<and> (\<forall>a \<in> set as. \<forall>s'. \<not> insertsSlug s' a)"
proof (cases "getBySlugRead e ctx s p st")
  case (Pair r st1)
  from getBySlugRead_accesses [of e ctx s p st] Pair
  obtain as where as: "st1 = accesses as st" "\<forall>a \<in> set as. \<forall>s'. \<not> insertsSlug s' a"
    by auto
  show ?thesis
  proof (cases r)
    case (Inl err)
    with Pair as show ?thesis by (auto simp add: getBySlug_phases)
  next
    case (Inr secret)
    from getBySlugWrite_accesses [of e ctx secret st1]
    obtain bs where bs: "snd (getBySlugWrite e ctx secret st1) = accesses bs st1"
      "\<forall>a \<in> set bs. \<forall>s'. \<not> insertsSlug s' a" by blast
    from Inr Pair as bs have "snd (getBySlug e ctx s p st) = accesses (as @ bs) st"
      by (simp add: getBySlug_phases accesses_append)
    moreover have "\<forall>a \<in> set (as @ bs). \<forall>s'. \<not> insertsSlug s' a" using as bs by auto
    ultimately show ?thesis by blast
  qed
qed

lemma update_accesses:
  "\<exists>as. snd (update e ctx i t x st) = accesses as st \<and> (\<forall>a \<in> set as. \<forall>s'. \<not> insertsSlug s' a)"
proof -
  have "snd (update e ctx i t x st) = accesses [] st \<or>
        snd (update e ctx i t x st) = accesses [SetData i t x (dbNow e)] st"
    by (auto simp add: update_def Let_def split: option.splits)
  then show ?thesis by fastforce
qed

lemma delete_accesses:
  "\<exists>as. snd (delete ctx i st) = accesses as st \<and> (\<forall>a \<in> set as. \<forall>s'. \<not> insertsSlug s' a)"
proof -
  have "snd (delete ctx i st) = accesses [] st \<or> snd (delete ctx i st) = accesses [Remove i] st"
    by (auto simp add: delete_def split: option.splits)
  then show ?thesis by fastforce
qed


subsection \<open>From creation to the calls after the first disclosure\<close>

lemma create_succeeds_row:
  assumes "create e ctx t c p x o1 st0 = (Inr out, st)"
  shows "out = \<lparr>create_id = cuid e, create_slug = nanoid e, create_title = t,
                 create_expiresAt = x, create_isOneTimeAccess = o1,
                 create_createdAt = dbNow e\<rparr>"
    and "secrets st = secrets st0 @
           [\<lparr>id' = cuid e, title = t, content = c, slug = nanoid e,
             password = (if truthy p then Some (bcryptHash e (the p)) else None),
             expiresAt = x, isOneTimeAccess = o1, hasBeenAccessed = False,
             createdAt = dbNow e, updatedAt = dbNow e,
             userId = map_option user_id (user ctx)\<rparr>]"
    and "cuid e \<notin> set (map id' (secrets st0))"
    and "nanoid e \<notin> set (map slug (secrets st0))"
  using assms
  by (auto simp add: create_def secretCreate_def split_beta Let_def split: if_splits)

text \<open>
  A one-time secret is created and a \<open>getBySlug\<close> for its slug passes every gate and runs
  to its end. It returns the content, and once it has ended (the mark is written), after
  any accesses to the database by other calls, overlapping or not, that insert no row of
  the same slug, every \<open>getBySlug\<close> the limiter admits is refused with \<open>NOT_FOUND\<close>.
\<close>

lemma one_time_access_in_sequence:
  assumes wf: "wellFormed st0"
    and created: "create e0 ctx0 t c pw x True st0 = (Inr out, st)"
    and adm: "admitted e ctx (secretAccessRateLimit st)"
    and live: "\<forall>d. x = Some d \<longrightarrow> newDate e \<le> d"
    and pw: "truthy pw \<longrightarrow> truthy p \<and> bcryptCompare e (the p) (bcryptHash e0 (the pw))"
    and log: "accessLogError e = None"
    and first: "getBySlug e ctx (create_slug out) p st = (res, st1)"
    and later: "\<forall>a \<in> set as. \<not> insertsSlug (create_slug out) a"
    and adm': "admitted e' ctx' (secretAccessRateLimit (accesses as st1))"
  shows "res = Inr \<lparr>get_id = create_id out, get_title = t, get_content = c,
                    get_expiresAt = x, get_isOneTimeAccess = True,
                    get_createdAt = create_createdAt out\<rparr>"
    and "fst (getBySlug e' ctx' (create_slug out) p' (accesses as st1)) \<in>
           {Inl (TRPCError NOT_FOUND ''Secret not found''),
            Inl (TRPCError NOT_FOUND ''Secret has expired''),
            Inl (TRPCError NOT_FOUND ''Secret has already been accessed'')}"
proof -
  let ?row = "\<lparr>id' = cuid e0, title = t, content = c, slug = nanoid e0,
             password = (if truthy pw then Some (bcryptHash e0 (the pw)) else None),
             expiresAt = x, isOneTimeAccess = True, hasBeenAccessed = False,
             createdAt = dbNow e0, updatedAt = dbNow e0,
             userId = map_option user_id (user ctx0)\<rparr>"
  note C = create_succeeds_row [OF created]
  have sl: "create_slug out = nanoid e0" and cid: "create_id out = cuid e0"
    and cat: "create_createdAt out = dbNow e0"
    using C(1) by simp_all
  have found: "findUniqueBySlug (secrets st) (nanoid e0) = Some ?row"
    unfolding C(2) by (rule find_slug_append [OF C(4)]) simp
  have wfst: "wellFormed st"
    using wf C(3,4) unfolding wellFormed_def C(2) by simp
  have nexp: "\<not> expired ?row (newDate e)" using live by (auto simp add: expired_def)
  have pacc: "passwordAccepted e ?row p" using pw by (simp add: passwordAccepted_def truthy_def)
  have G: "fst (getBySlug e ctx (nanoid e0) p st) =
      Inr \<lparr>get_id = cuid e0, get_title = t, get_content = c, get_expiresAt = x,
           get_isOneTimeAccess = True, get_createdAt = dbNow e0\<rparr>"
    using getBySlug_admitted [OF adm, of "nanoid e0" p] found nexp pacc log
    by (auto simp add: passwordAccepted_def)
  have S: "secrets (snd (getBySlug e ctx (nanoid e0) p st)) =
      secretUpdate (cuid e0) (\<lambda>r. r\<lparr>hasBeenAccessed := True\<rparr>) (dbNow e) (secrets st)"
    using found adm nexp pacc log
    by (auto simp add: getBySlug_def admitted_def passwordAccepted_def split_beta Let_def)
  from first have r: "res = fst (getBySlug e ctx (nanoid e0) p st)"
    and s1: "st1 = snd (getBySlug e ctx (nanoid e0) p st)"
    unfolding sl by simp_all
  show "res = Inr \<lparr>get_id = create_id out, get_title = t, get_content = c,
                    get_expiresAt = x, get_isOneTimeAccess = True,
                    get_createdAt = create_createdAt out\<rparr>"
    unfolding r cid cat by (rule G)
  from find_slug_Some [OF found] have mem: "?row \<in> set (secrets st)" by simp
  from wfst have ds: "distinct (map slug (secrets st))" by (simp add: wellFormed_def)
  have "consumedOrAbsent (nanoid e0) (secrets st1)"
    unfolding s1 S using consumed_after_flag [OF ds mem, of "dbNow e"] by simp
  then have "consumedOrAbsent (nanoid e0) (secrets (accesses as st1))"
    using later unfolding sl by (rule consumed_accesses)
  from read_after_mark(2) [OF this, of e' ctx' p'] adm'
  show "fst (getBySlug e' ctx' (create_slug out) p' (accesses as st1)) \<in>
           {Inl (TRPCError NOT_FOUND ''Secret not found''),
            Inl (TRPCError NOT_FOUND ''Secret has expired''),
            Inl (TRPCError NOT_FOUND ''Secret has already been accessed'')}"
    unfolding sl by simp
qed

end
